theory Spec2Isabelle
  imports Complex_Main
begin

section \<open>Numbers and input data\<close>

text \<open>
  The grid tool computes with JavaScript numbers. They are modelled as exact reals:
  rounding error of the double format is outside this development. The two ways the
  source leaves the real numbers are written out where they occur: \<open>Math.min(...[])\<close>
  and \<open>Math.max(...[])\<close> of an empty array (\<open>\<plusminus>Infinity\<close>), and \<open>0 / 0\<close> in the
  point-count statistic (\<open>NaN\<close>).

  Colours and other fields that only feed the drawing are left out of the records.

  A parsed CSV row is an object with \<open>x\<close>, \<open>y\<close>, \<open>z\<close> and, for fault files, an integer
  \<open>segId\<close> (\<open>Math.floor\<close> of the column); a horizon or fault data set is a named list of
  such points.
\<close>

record point =
  px :: real
  py :: real
  pz :: real
  segId :: "int option"

record dataset =
  dname :: string
  dpoints :: "point list"

text \<open>\<open>Math.round(v * 100) / 100\<close> and its siblings: \<open>Math.round\<close> is \<open>floor (v + 1/2)\<close>.\<close>

definition jsRound :: "real \<Rightarrow> real" where
  "jsRound v = of_int \<lfloor>v + 1 / 2\<rfloor>"

definition roundTo :: "real \<Rightarrow> real \<Rightarrow> real" where
  "roundTo m v = jsRound (v * m) / m"

section \<open>Horizon interpolation\<close>

definition planarDistance :: "real \<Rightarrow> real \<Rightarrow> point \<Rightarrow> real" where
  "planarDistance x y p = sqrt ((x - px p) ^ 2 + (y - py p) ^ 2)"

text \<open>
  \<open>points.map(p => ({...p, distance})).sort((a, b) => a.distance - b.distance).slice(0, K)\<close>:
  the points paired with their distance, in a stable sort by distance, cut to the first
  \<open>K\<close>.
\<close>

definition nearestPoints :: "nat \<Rightarrow> real \<Rightarrow> real \<Rightarrow> point list \<Rightarrow> (real \<times> point) list" where
  "nearestPoints K x y points =
     take (min K (length points)) (sort_key fst (map (\<lambda>p. (planarDistance x y p, p)) points))"

text \<open>The \<open>forEach\<close> that accumulates \<open>weightSum\<close> and \<open>valueSum\<close>, for a distance floor \<open>d0\<close>.\<close>

definition idwStep :: "real \<Rightarrow> real \<times> point \<Rightarrow> real \<times> real \<Rightarrow> real \<times> real" where
  "idwStep d0 n acc =
     (let weight = 1 / (max (fst n) d0) ^ 2
      in (fst acc + weight, snd acc + pz (snd n) * weight))"

text \<open>\<open>geologicalInterpolation\<close> of the grid tool (K = 6, exact-match short cut below 1).\<close>

definition geologicalInterpolation :: "real \<Rightarrow> real \<Rightarrow> point list \<Rightarrow> real" where
  "geologicalInterpolation x y points =
     (if length points = 0 then 0
      else case nearestPoints 6 x y points of
             [] \<Rightarrow> 0
           | n0 # rest \<Rightarrow>
               if fst n0 < 1 then pz (snd n0)
               else let tot = fold (idwStep 0.1) (n0 # rest) (0, 0)
                    in if fst tot > 0 then snd tot / fst tot else pz (snd n0))"

text \<open>
  \<open>geologicalInterpolation\<close> of the utility module and of the first version of the tool
  (K = 8, distance floored at 1, no short cut).
\<close>

definition geologicalInterpolation_utils :: "real \<Rightarrow> real \<Rightarrow> point list \<Rightarrow> real" where
  "geologicalInterpolation_utils x y points =
     (if length points = 0 then 0
      else case nearestPoints 8 x y points of
             [] \<Rightarrow> 0
           | n0 # rest \<Rightarrow>
               let tot = fold (idwStep 1) (n0 # rest) (0, 0)
               in if fst tot > 0 then snd tot / fst tot else pz (snd n0))"

section \<open>Fault influence\<close>

record fault_acc =
  totalInfluence :: real
  dominantFault :: int
  maxInfluence :: real

record fault_info =
  influence :: real
  faultFlag :: int
  displacement :: real

definition spatialDistance :: "real \<Rightarrow> real \<Rightarrow> real \<Rightarrow> point \<Rightarrow> real" where
  "spatialDistance x y z p = sqrt ((x - px p) ^ 2 + (y - py p) ^ 2 + (z - pz p) ^ 2)"

text \<open>\<open>point.segId || 1\<close>: a missing or zero segment id counts as 1.\<close>

definition segIdOr1 :: "point \<Rightarrow> int" where
  "segIdOr1 p = (case segId p of None \<Rightarrow> 1 | Some s \<Rightarrow> if s = 0 then 1 else s)"

text \<open>The body of the inner \<open>forEach\<close>, for the decay factor \<open>k\<close> of the variant.\<close>

definition faultStep :: "real \<Rightarrow> real \<Rightarrow> real \<Rightarrow> real \<Rightarrow> real \<Rightarrow> point \<Rightarrow> fault_acc \<Rightarrow> fault_acc" where
  "faultStep k x y z influenceRadius p acc =
     (let distance = spatialDistance x y z p
      in if distance < influenceRadius
         then let infl = exp (- distance / (influenceRadius * k));
                  acc1 = acc\<lparr>totalInfluence := totalInfluence acc + infl\<rparr>
              in if infl > maxInfluence acc
                 then acc1\<lparr>maxInfluence := infl, dominantFault := segIdOr1 p\<rparr>
                 else acc1
         else acc)"

definition faultScan :: "real \<Rightarrow> real \<Rightarrow> real \<Rightarrow> real \<Rightarrow> real \<Rightarrow> dataset list \<Rightarrow> fault_acc" where
  "faultScan k x y z influenceRadius faults =
     fold (\<lambda>fault. fold (faultStep k x y z influenceRadius) (dpoints fault)) faults
       \<lparr>totalInfluence = 0, dominantFault = 0, maxInfluence = 0\<rparr>"

text \<open>
  \<open>calculateAdvancedFaultInfluence\<close> of the grid tool; \<open>r\<close> is the value its one call of
  \<open>Math.random()\<close> returns.
\<close>

definition calculateAdvancedFaultInfluence ::
  "real \<Rightarrow> real \<Rightarrow> real \<Rightarrow> dataset list \<Rightarrow> real \<Rightarrow> real \<Rightarrow> fault_info" where
  "calculateAdvancedFaultInfluence x y z faults influenceRadius r =
     (let acc = faultScan 0.25 x y z influenceRadius faults
      in \<lparr>influence = min (totalInfluence acc) 1,
          faultFlag = (if maxInfluence acc > 0.08 then dominantFault acc else 0),
          displacement = totalInfluence acc * 60 * (r - 0.5)\<rparr>)"

text \<open>The same function in the utility module and the first version of the tool.\<close>

definition calculateAdvancedFaultInfluence_utils ::
  "real \<Rightarrow> real \<Rightarrow> real \<Rightarrow> dataset list \<Rightarrow> real \<Rightarrow> real \<Rightarrow> fault_info" where
  "calculateAdvancedFaultInfluence_utils x y z faults influenceRadius r =
     (let acc = faultScan 0.3 x y z influenceRadius faults
      in \<lparr>influence = min (totalInfluence acc) 1,
          faultFlag = (if maxInfluence acc > 0.1 then dominantFault acc else 0),
          displacement = totalInfluence acc * 50 * (r - 0.5)\<rparr>)"

section \<open>Cells, bounds and grids\<close>

text \<open>
  A grid cell as \<open>generateGeologicalGrid\<close> pushes it. A cell of a merged grid carries the
  fields \<open>combineGrids\<close> adds (\<open>blend\<close>); its \<open>sourceColor\<close> is kept as the hue of the
  \<open>hsl(...)\<close> string.
\<close>

record blend_info =
  originalGrid :: string
  combinedLayer :: nat
  gridIndex :: nat
  sourceHue :: nat
  combinedPorosity :: real
  combinedPermeability :: real
  mergeWeight :: real

record cell =
  cx :: real
  cy :: real
  cz :: real
  layer :: nat
  bulkVolume :: real
  cellFaultFlag :: int
  wellPath :: nat
  porosity :: real
  permeability :: real
  structuralDip :: real
  blend :: "blend_info option"

record bounds =
  xMin :: real
  xMax :: real
  yMin :: real
  yMax :: real
  zMin :: real
  zMax :: real

text \<open>
  \<open>{xMin: Math.min(...ps.map(p => p.x)), xMax: Math.max(...), ...}\<close> over a list of
  coordinate triples. For the empty list the source gets \<open>Infinity\<close> and \<open>-Infinity\<close>,
  which are not real numbers: the result is \<open>None\<close> then.
\<close>

definition envelopeOf :: "(real \<times> real \<times> real) list \<Rightarrow> bounds option" where
  "envelopeOf ps =
     (case ps of
        [] \<Rightarrow> None
      | p # rest \<Rightarrow>
          Some \<lparr>xMin = fold min (map fst rest) (fst p),
                xMax = fold max (map fst rest) (fst p),
                yMin = fold min (map (fst \<circ> snd) rest) (fst (snd p)),
                yMax = fold max (map (fst \<circ> snd) rest) (fst (snd p)),
                zMin = fold min (map (snd \<circ> snd) rest) (snd (snd p)),
                zMax = fold max (map (snd \<circ> snd) rest) (snd (snd p))\<rparr>)"

definition pointCoords :: "point \<Rightarrow> real \<times> real \<times> real" where
  "pointCoords p = (px p, py p, pz p)"

definition cellCoords :: "cell \<Rightarrow> real \<times> real \<times> real" where
  "cellCoords c = (cx c, cy c, cz c)"

datatype direction = Vertical | Horizontal

record merge_stats =
  avgPorosity :: real
  avgPermeability :: real
  faultDensity :: real
  wellDensity :: real

text \<open>
  Where a grid comes from: the names of the horizons and faults it was generated from,
  or the source grids, direction and statistics of a merge.
\<close>

datatype provenance =
  Generated string string
| Combined "string list" direction merge_stats

record grid =
  gid :: string
  gname :: string
  points :: "cell list"
  totalVolume :: real
  layerCount :: nat
  pointCount :: nat
  bounds :: bounds
  timestamp :: nat
  origin :: provenance

section \<open>Strings of the grid records\<close>

function showNat :: "nat \<Rightarrow> string" where
  "showNat n =
     (if n < 10 then [''0123456789'' ! n]
      else showNat (n div 10) @ [''0123456789'' ! (n mod 10)])"
  by pat_completeness auto
termination
  by (relation "measure id") auto

fun joinWith :: "string \<Rightarrow> string list \<Rightarrow> string" where
  "joinWith sep [] = []"
| "joinWith sep [s] = s"
| "joinWith sep (s # t # ts) = s @ sep @ joinWith sep (t # ts)"

fun splitOn :: "char \<Rightarrow> string \<Rightarrow> string list" where
  "splitOn c [] = [[]]"
| "splitOn c (a # s) =
     (if a = c then [] # splitOn c s
      else case splitOn c s of [] \<Rightarrow> [[a]] | w # ws \<Rightarrow> (a # w) # ws)"

text \<open>\<open>g.name.split('_')[1] || g.name\<close>\<close>

definition shortName :: "string \<Rightarrow> string" where
  "shortName n =
     (case splitOn (CHR ''_'') n of
        a # b # rest \<Rightarrow> if b = [] then n else b
      | _ \<Rightarrow> n)"

section \<open>The application state\<close>

text \<open>
  The React state the two operations read and write. \<open>selectedGrids\<close> is a \<open>Set\<close> of
  grid ids, read in insertion order by \<open>Array.from\<close>; \<open>mergeDirection\<close> is only ever set
  to \<open>'vertical'\<close> or \<open>'horizontal'\<close>.
\<close>

record app_state =
  grids :: "grid list"
  activeGridId :: "string option"
  horizonData :: "dataset list"
  faultData :: "dataset list"
  numLayers :: nat
  isGenerating :: bool
  selectedGrids :: "string list"
  mergeDirection :: direction

text \<open>
  The two messages the operations show with \<open>alert\<close>: "Please provide at least two
  horizon surfaces (top and bottom)" in \<open>generateGeologicalGrid\<close>, and "Cannot combine
  grids: ..." with the reason and details of the check in \<open>combineGrids\<close>.
\<close>

datatype alert = NeedTwoHorizons | CannotCombine

text \<open>
  How an operation ends without registering a grid:
  \<^item> \<open>Alerted a\<close>: the operation shows the alert \<open>a\<close> and returns. Nothing is thrown:
    the call returns \<open>undefined\<close>, as it does after it has registered a grid;
  \<^item> \<open>UnknownGrid\<close>: the \<open>TypeError\<close> raised when a selected id is not in \<open>grids\<close>
    (\<open>find\<close> gives \<open>undefined\<close>, whose \<open>bounds\<close> is read). It is the only exception of
    the two operations;
  \<^item> \<open>NonFinite\<close>: the envelope of no points. The source goes on with \<open>\<plusminus>Infinity\<close> in
    the bounds of the grid; the model has no real-valued grid for it and stops here.
\<close>

datatype failure = Alerted alert | UnknownGrid | NonFinite

section \<open>Grid generation\<close>

record gen_env =
  e_topHorizon :: "point list"
  e_bottomHorizon :: "point list"
  e_faultData :: "dataset list"
  e_numLayers :: nat
  e_bounds :: bounds
  e_gridSpacing :: real
  e_random :: "nat \<Rightarrow> real"

text \<open>
  The variables the sampling loops update: the cell array, the two accumulators, and the
  number of calls of \<open>Math.random()\<close> made so far (the \<open>i\<close>-th call returns
  \<open>e_random env i\<close>).
\<close>

record gen_state =
  grid_acc :: "cell list"
  totalVolume_acc :: real
  pointCount_acc :: nat
  draws :: nat

text \<open>The body of the layer loop at position \<open>(x, y)\<close> for one \<open>layerIdx\<close>.\<close>

definition layerStep :: "gen_env \<Rightarrow> real \<Rightarrow> real \<Rightarrow> real \<Rightarrow> real \<Rightarrow> nat \<Rightarrow> gen_state \<Rightarrow> gen_state" where
  "layerStep env x y topZ bottomZ layerIdx st =
     (let thickness = topZ - bottomZ;
          layerThickness = thickness / (real (e_numLayers env) + 1);
          layerRatio = real layerIdx / (real (e_numLayers env) + 1);
          z0 = bottomZ + layerRatio * thickness;
          dip = sin (x * 0.0008) * cos (y * 0.0006) * 12;
          z1 = z0 + dip * layerRatio;
          faultInfo = calculateAdvancedFaultInfluence x y z1 (e_faultData env) 120
                        (e_random env (draws st));
          z2 = z1 + displacement faultInfo;
          cellVolume = e_gridSpacing env * e_gridSpacing env * layerThickness;
          poro = 0.12 + e_random env (draws st + 1) * 0.18;
          perm = 10 powr (e_random env (draws st + 2) * 3.5 - 0.5);
          isWellLocation =
            (if e_random env (draws st + 3) < 0.015 \<and> z2 > bottomZ + thickness * 0.75
             then 1 else 0)
      in \<lparr>grid_acc = grid_acc st @
             [\<lparr>cx = roundTo 100 x, cy = roundTo 100 y, cz = roundTo 100 z2,
               layer = layerIdx, bulkVolume = roundTo 100 cellVolume,
               cellFaultFlag = faultFlag faultInfo, wellPath = isWellLocation,
               porosity = roundTo 1000 poro, permeability = roundTo 100 perm,
               structuralDip = roundTo 10 dip, blend = None\<rparr>],
          totalVolume_acc = totalVolume_acc st + cellVolume,
          pointCount_acc = pointCount_acc st + 1,
          draws = draws st + 4\<rparr>)"

text \<open>
  The body of the two sampling loops at position \<open>(x, y)\<close>: \<open>continue\<close> where the top is
  not above the bottom, the layer loop \<open>layerIdx = 0 .. numLayers + 1\<close> otherwise.
\<close>

definition columnStep :: "gen_env \<Rightarrow> real \<Rightarrow> real \<Rightarrow> gen_state \<Rightarrow> gen_state" where
  "columnStep env x y st =
     (let topZ = geologicalInterpolation x y (e_topHorizon env);
          bottomZ = geologicalInterpolation x y (e_bottomHorizon env)
      in if topZ \<le> bottomZ then st
         else fold (layerStep env x y topZ bottomZ) [0 ..< e_numLayers env + 2] st)"

text \<open>
  \<open>for (let y = bounds.yMin; y <= bounds.yMax; y += gridSpacing)\<close> and the loop over
  \<open>x\<close> around it. With a spacing of 0 the source never leaves the loop: the result is
  \<open>None\<close> then.
\<close>

partial_function (option) yLoop :: "gen_env \<Rightarrow> real \<Rightarrow> real \<Rightarrow> gen_state \<Rightarrow> gen_state option" where
  "yLoop env x y st =
     (if y \<le> yMax (e_bounds env)
      then yLoop env x (y + e_gridSpacing env) (columnStep env x y st)
      else Some st)"

partial_function (option) xLoop :: "gen_env \<Rightarrow> real \<Rightarrow> gen_state \<Rightarrow> gen_state option" where
  "xLoop env x st =
     (if x \<le> xMax (e_bounds env)
      then Option.bind (yLoop env x (yMin (e_bounds env)) st) (xLoop env (x + e_gridSpacing env))
      else Some st)"

text \<open>
  \<open>generateGeologicalGrid\<close>, run to its end: \<open>random\<close> is the sequence of values
  \<open>Math.random()\<close> returns and \<open>now\<close> the clock. The result is what the call leaves
  behind, the new grid or the reason there is none, and the state after it. The step
  counter and the pause of one millisecond every 50 steps change nothing in the grid and
  are left out; the inputs are those of the state the call started in.
\<close>

definition generateGeologicalGrid ::
  "(nat \<Rightarrow> real) \<Rightarrow> nat \<Rightarrow> app_state \<Rightarrow> ((failure + grid) \<times> app_state) option" where
  "generateGeologicalGrid random now s =
     (if length (horizonData s) < 2 then Some (Inl (Alerted NeedTwoHorizons), s)
      else
        let topHorizon = dpoints (horizonData s ! 0);
            bottomHorizon = dpoints (horizonData s ! 1);
            allPoints = topHorizon @ bottomHorizon
        in case envelopeOf (map pointCoords allPoints) of
             None \<Rightarrow> Some (Inl NonFinite, s\<lparr>isGenerating := False\<rparr>)
           | Some bnds \<Rightarrow>
               let gridSpacing = min ((xMax bnds - xMin bnds) / 45) ((yMax bnds - yMin bnds) / 45);
                   env = \<lparr>e_topHorizon = topHorizon, e_bottomHorizon = bottomHorizon,
                          e_faultData = faultData s, e_numLayers = numLayers s,
                          e_bounds = bnds, e_gridSpacing = gridSpacing, e_random = random\<rparr>
               in Option.bind
                    (xLoop env (xMin bnds)
                       \<lparr>grid_acc = [], totalVolume_acc = 0, pointCount_acc = 0, draws = 0\<rparr>)
                    (\<lambda>st.
                       let newGrid =
                             \<lparr>gid = showNat now,
                              gname = ''Grid_'' @ showNat (length (grids s) + 1),
                              points = grid_acc st,
                              totalVolume = jsRound (totalVolume_acc st),
                              layerCount = numLayers s + 2,
                              pointCount = pointCount_acc st,
                              bounds = bnds,
                              timestamp = now,
                              origin = Generated (joinWith '', '' (map dname (horizonData s)))
                                                 (joinWith '', '' (map dname (faultData s)))\<rparr>
                       in Some (Inr newGrid,
                                s\<lparr>grids := grids s @ [newGrid],
                                  activeGridId := Some (gid newGrid),
                                  isGenerating := False\<rparr>)))"

section \<open>Compatibility of grids\<close>

text \<open>
  One entry of \<open>details\<close>. The source renders each as a sentence with the numbers in
  \<open>toFixed(0)\<close>; the model keeps which check failed, for which grid, and the layer
  difference.
\<close>

datatype detail =
  BoundsMismatch string
| LayerCountVariation nat
| PointCountVariance

record compat =
  canCombine :: bool
  reason :: string
  details :: "detail list"
  compatibilityScore :: "int option"

text \<open>The test of the bounds loop for one grid against the bounds of the first.\<close>

definition boundsMismatch :: "bounds \<Rightarrow> bounds \<Rightarrow> bool" where
  "boundsMismatch firstBounds b =
     (let tolerancePercent = 0.1;
          xTolerance = (xMax firstBounds - xMin firstBounds) * tolerancePercent;
          yTolerance = (yMax firstBounds - yMin firstBounds) * tolerancePercent;
          zTolerance = (zMax firstBounds - zMin firstBounds) * tolerancePercent;
          xDiff = max \<bar>xMin b - xMin firstBounds\<bar> \<bar>xMax b - xMax firstBounds\<bar>;
          yDiff = max \<bar>yMin b - yMin firstBounds\<bar> \<bar>yMax b - yMax firstBounds\<bar>;
          zDiff = max \<bar>zMin b - zMin firstBounds\<bar> \<bar>zMax b - zMax firstBounds\<bar>
      in xDiff > xTolerance \<or> yDiff > yTolerance \<or> zDiff > zTolerance)"

text \<open>
  \<open>avgPoints\<close> and \<open>pointVariance\<close>. The counts are those of at least two grids. When
  all of them are 0 the average is 0 and every term is \<open>0 / 0\<close>: the source's value is
  \<open>NaN\<close>, here \<open>None\<close>, and both of its comparisons with 0.3 are false.
\<close>

definition pointVariance :: "nat list \<Rightarrow> real option" where
  "pointVariance pointCounts =
     (let avgPoints = real (fold (\<lambda>b a. a + b) pointCounts 0) / real (length pointCounts)
      in if avgPoints = 0 then None
         else Some (fold (\<lambda>p sum. sum + \<bar>real p - avgPoints\<bar> / avgPoints) pointCounts 0
                    / real (length pointCounts)))"

definition varianceTooHigh :: "real option \<Rightarrow> bool" where
  "varianceTooHigh v = (case v of None \<Rightarrow> False | Some r \<Rightarrow> r > 0.3)"

definition varianceOk :: "real option \<Rightarrow> bool" where
  "varianceOk v = (case v of None \<Rightarrow> False | Some r \<Rightarrow> r \<le> 0.3)"

text \<open>The checks of \<open>canCombineGrids\<close> on the selected grids, the first one apart.\<close>

definition checkSelected :: "grid \<Rightarrow> grid list \<Rightarrow> compat" where
  "checkSelected first others =
     (let firstBounds = bounds first;
          boundsDetails =
            map (\<lambda>g. BoundsMismatch (gname g))
              (filter (\<lambda>g. boundsMismatch firstBounds (bounds g)) others);
          boundsCompatible = (boundsDetails = []);
          maxLayerDiff = fold max (map layerCount others) (layerCount first)
                         - fold min (map layerCount others) (layerCount first);
          layerDetails = (if maxLayerDiff > 5 then [LayerCountVariation maxLayerDiff] else []);
          pointCounts = map pointCount (first # others);
          variance = pointVariance pointCounts;
          pointDetails = (if varianceTooHigh variance then [PointCountVariance] else []);
          allDetails = boundsDetails @ layerDetails @ pointDetails;
          ok = (boundsCompatible \<and> maxLayerDiff \<le> 5 \<and> varianceOk variance)
      in \<lparr>canCombine = ok,
          reason = (if ok then ''Compatible grids'' else ''Incompatible grids - see details''),
          details = allDetails,
          compatibilityScore = Some (100 - int (length allDetails) * 20)\<rparr>)"

text \<open>\<open>grids.find(g => g.id === id)\<close>\<close>

definition findGrid :: "grid list \<Rightarrow> string \<Rightarrow> grid option" where
  "findGrid gs i = find (\<lambda>g. gid g = i) gs"

text \<open>
  \<open>canCombineGrids(gridIds)\<close> over the grids of the state. With fewer than two ids the
  result has no score.
\<close>

definition canCombineGrids :: "grid list \<Rightarrow> string list \<Rightarrow> failure + compat" where
  "canCombineGrids gs gridIds =
     (if length gridIds < 2
      then Inr \<lparr>canCombine = False, reason = ''Need at least 2 grids'', details = [],
                compatibilityScore = None\<rparr>
      else case those (map (findGrid gs) gridIds) of
             None \<Rightarrow> Inl UnknownGrid
           | Some [] \<Rightarrow> Inl UnknownGrid
           | Some (first # others) \<Rightarrow> Inr (checkSelected first others))"

section \<open>Merging grids\<close>

text \<open>\<open>calculateOffset(index, bounds, allBounds)\<close> for the merge direction of the state.\<close>

definition calculateOffset :: "direction \<Rightarrow> nat \<Rightarrow> bounds \<Rightarrow> bounds list \<Rightarrow> real \<times> real \<times> real" where
  "calculateOffset dir index b allBounds =
     (let separation = 50
      in case dir of
           Vertical \<Rightarrow> (0, 0, real index * separation)
         | Horizontal \<Rightarrow>
             (fold (\<lambda>prevBounds xOffset. xOffset + (xMax prevBounds - xMin prevBounds))
                (take index allBounds) 0,
              0, 0))"

definition blendedPoint :: "nat \<Rightarrow> real \<times> real \<times> real \<Rightarrow> grid \<Rightarrow> cell \<Rightarrow> cell" where
  "blendedPoint index offset g point =
     point\<lparr>cx := cx point + fst offset,
           cy := cy point + fst (snd offset),
           cz := cz point + snd (snd offset),
           blend := Some
             \<lparr>originalGrid = gname g,
              combinedLayer = layer point + index * (layerCount g + 1),
              gridIndex = index,
              sourceHue = (index * 120 + layer point * 30) mod 360,
              combinedPorosity = porosity point * (1 + real index * 0.1),
              combinedPermeability = permeability point * (1 + real index * 0.15),
              mergeWeight = 1 / (real index + 1)\<rparr>\<rparr>"

text \<open>The \<open>forEach\<close> over the selected grids, from index \<open>index\<close> on.\<close>

record merge_acc =
  combinedPoints :: "cell list"
  mergedVolume :: real
  totalPointCount :: nat

fun mergeLoop :: "direction \<Rightarrow> bounds list \<Rightarrow> nat \<Rightarrow> grid list \<Rightarrow> merge_acc \<Rightarrow> merge_acc" where
  "mergeLoop dir allGridBounds index [] acc = acc"
| "mergeLoop dir allGridBounds index (g # rest) acc =
     (let offset = calculateOffset dir index (bounds g) allGridBounds
      in mergeLoop dir allGridBounds (index + 1) rest
           \<lparr>combinedPoints = combinedPoints acc @ map (blendedPoint index offset g) (points g),
            mergedVolume = mergedVolume acc + totalVolume g,
            totalPointCount = totalPointCount acc + pointCount g\<rparr>)"

text \<open>\<open>count / combinedPoints.length\<close> and the two averages of \<open>mergeStats\<close>.\<close>

definition mergeStatsOf :: "cell list \<Rightarrow> merge_stats" where
  "mergeStatsOf cs =
     \<lparr>avgPorosity = fold (\<lambda>p sum. sum + porosity p) cs 0 / real (length cs),
      avgPermeability = fold (\<lambda>p sum. sum + permeability p) cs 0 / real (length cs),
      faultDensity = real (length (filter (\<lambda>p. cellFaultFlag p > 0) cs)) / real (length cs),
      wellDensity = real (length (filter (\<lambda>p. wellPath p > 0) cs)) / real (length cs)\<rparr>"

text \<open>
  \<open>combineGrids\<close>: the selection is checked, the cells of every selected grid are moved
  and collected, sorted by \<open>z\<close> (vertical) or \<open>x\<close> (horizontal), and the merged grid is
  appended to the grids of the state.
\<close>

definition combineGrids :: "nat \<Rightarrow> app_state \<Rightarrow> (failure + grid) \<times> app_state" where
  "combineGrids now s =
     (let gridIds = selectedGrids s
      in case canCombineGrids (grids s) gridIds of
           Inl e \<Rightarrow> (Inl e, s)
         | Inr compatibility \<Rightarrow>
             if \<not> canCombine compatibility then (Inl (Alerted CannotCombine), s)
             else case those (map (findGrid (grids s)) gridIds) of
                    None \<Rightarrow> (Inl UnknownGrid, s)
                  | Some [] \<Rightarrow> (Inl UnknownGrid, s)
                  | Some (g0 # rest) \<Rightarrow>
                      let selectedGridData = g0 # rest;
                          acc = mergeLoop (mergeDirection s) (map bounds selectedGridData) 0
                                  selectedGridData
                                  \<lparr>combinedPoints = [], mergedVolume = 0, totalPointCount = 0\<rparr>;
                          sorted =
                            (if mergeDirection s = Vertical then sort_key cz (combinedPoints acc)
                             else sort_key cx (combinedPoints acc))
                      in case envelopeOf (map cellCoords sorted) of
                           None \<Rightarrow> (Inl NonFinite, s)
                         | Some combinedBounds \<Rightarrow>
                             let directionLabel =
                                   (if mergeDirection s = Vertical then ''V'' else ''H'');
                                 combinedGrid =
                                   \<lparr>gid = showNat now,
                                    gname = directionLabel @ ''-Merged_'' @
                                      joinWith ''+'' (map (shortName \<circ> gname) selectedGridData),
                                    points = sorted,
                                    totalVolume = mergedVolume acc,
                                    layerCount = fold max (map layerCount rest) (layerCount g0)
                                                 * length selectedGridData,
                                    pointCount = totalPointCount acc,
                                    bounds = combinedBounds,
                                    timestamp = now,
                                    origin = Combined (map gname selectedGridData)
                                               (mergeDirection s) (mergeStatsOf sorted)\<rparr>
                             in (Inr combinedGrid,
                                 s\<lparr>grids := grids s @ [combinedGrid],
                                   activeGridId := Some (gid combinedGrid),
                                   selectedGrids := []\<rparr>))"

section \<open>Notions the properties are stated with\<close>

text \<open>
  The values a loop \<open>for (v = lo; v <= hi; v += step)\<close> visits when the step is positive,
  and the sampling positions of a generation run in the order the two loops visit them.
\<close>

function axisFrom :: "real \<Rightarrow> real \<Rightarrow> real \<Rightarrow> real list" where
  "axisFrom v hi step = (if 0 < step \<and> v \<le> hi then v # axisFrom (v + step) hi step else [])"
  by pat_completeness auto
termination
proof (relation "measure (\<lambda>(v, hi, step). nat \<lceil>(hi - v) / step + 1\<rceil>)")
  show "wf (measure (\<lambda>(v, hi, step). nat \<lceil>(hi - v) / step + 1\<rceil>))"
    by simp
next
  fix v hi step :: real
  assume a: "0 < step \<and> v \<le> hi"
  then have "(hi - (v + step)) / step + 1 = (hi - v) / step"
    by (simp add: field_simps)
  moreover from a have "0 \<le> (hi - v) / step"
    by simp
  ultimately have "nat \<lceil>(hi - (v + step)) / step + 1\<rceil> < nat \<lceil>(hi - v) / step + 1\<rceil>"
    by (simp add: ceiling_less_iff)
  then show "((v + step, hi, step), (v, hi, step))
               \<in> measure (\<lambda>(v, hi, step). nat \<lceil>(hi - v) / step + 1\<rceil>)"
    by simp
qed

definition samplePositions :: "gen_env \<Rightarrow> (real \<times> real) list" where
  "samplePositions env =
     concat (map (\<lambda>x. map (\<lambda>y. (x, y))
                         (axisFrom (yMin (e_bounds env)) (yMax (e_bounds env)) (e_gridSpacing env)))
               (axisFrom (xMin (e_bounds env)) (xMax (e_bounds env)) (e_gridSpacing env)))"

text \<open>The environment \<open>generateGeologicalGrid\<close> sets up for its loops, when there are points.\<close>

definition envOf :: "(nat \<Rightarrow> real) \<Rightarrow> app_state \<Rightarrow> bounds \<Rightarrow> gen_env" where
  "envOf random s bnds =
     \<lparr>e_topHorizon = dpoints (horizonData s ! 0),
      e_bottomHorizon = dpoints (horizonData s ! 1),
      e_faultData = faultData s, e_numLayers = numLayers s, e_bounds = bnds,
      e_gridSpacing = min ((xMax bnds - xMin bnds) / 45) ((yMax bnds - yMin bnds) / 45),
      e_random = random\<rparr>"

text \<open>A position the loops skip: the interpolated top is not above the interpolated bottom.\<close>

definition degenerate :: "gen_env \<Rightarrow> real \<times> real \<Rightarrow> bool" where
  "degenerate env pos =
     (geologicalInterpolation (fst pos) (snd pos) (e_topHorizon env)
        \<le> geologicalInterpolation (fst pos) (snd pos) (e_bottomHorizon env))"

declare axisFrom.simps [simp del]

text \<open>
  \<open>p\<close> is a sample of the list and every other sample is strictly farther from
  \<open>(x, y)\<close> than \<open>p\<close> is.
\<close>

definition uniqueNearest :: "real \<Rightarrow> real \<Rightarrow> point \<Rightarrow> point list \<Rightarrow> bool" where
  "uniqueNearest x y p pts =
     (p \<in> set pts \<and> (\<forall>q \<in> set pts. q \<noteq> p \<longrightarrow> planarDistance x y p < planarDistance x y q))"

text \<open>The sum of the widths \<open>xMax - xMin\<close> of the grids before index \<open>i\<close>.\<close>

definition widthsBefore :: "grid list \<Rightarrow> nat \<Rightarrow> real" where
  "widthsBefore gs i = sum_list (map (\<lambda>g. xMax (bounds g) - xMin (bounds g)) (take i gs))"

text \<open>A call of \<open>generateGeologicalGrid\<close> ends by throwing an error.\<close>

definition raisesError :: "((failure + grid) \<times> app_state) option \<Rightarrow> bool" where
  "raisesError r = (case r of Some (Inl UnknownGrid, s') \<Rightarrow> True | _ \<Rightarrow> False)"

text \<open>The cells of a merged grid that came from the selected grid of index \<open>i\<close>.\<close>

definition cellsOfIndex :: "nat \<Rightarrow> grid \<Rightarrow> cell list" where
  "cellsOfIndex i m = filter (\<lambda>c. map_option gridIndex (blend c) = Some i) (points m)"

section \<open>Inputs of the scenarios\<close>

text \<open>The state the tool starts in (the initial values of its \<open>useState\<close> hooks).\<close>

definition initialState :: app_state where
  "initialState =
     \<lparr>grids = [], activeGridId = None, horizonData = [], faultData = [], numLayers = 5,
      isGenerating = False, selectedGrids = [], mergeDirection = Vertical\<rparr>"

text \<open>A horizon sampled on the 10 by 10 grid of spacing 100 from the origin, flat at \<open>z\<close>.\<close>

definition flatHorizon :: "string \<Rightarrow> real \<Rightarrow> dataset" where
  "flatHorizon n z =
     \<lparr>dname = n,
      dpoints = concat (map (\<lambda>i. map (\<lambda>j. \<lparr>px = 100 * real i, py = 100 * real j, pz = z,
                                              segId = None\<rparr>) [0 ..< 10]) [0 ..< 10])\<rparr>"

text \<open>The flat slab: top at 1000, base at 900, no faults, three layers.\<close>

definition slabState :: app_state where
  "slabState =
     initialState\<lparr>horizonData := [flatHorizon ''Top'' 1000, flatHorizon ''Base'' 900],
                  numLayers := 3\<rparr>"

text \<open>A horizon of one sample.\<close>

definition singleHorizon :: "string \<Rightarrow> real \<Rightarrow> real \<Rightarrow> real \<Rightarrow> dataset" where
  "singleHorizon n x y z = \<lparr>dname = n, dpoints = [\<lparr>px = x, py = y, pz = z, segId = None\<rparr>]\<rparr>"

text \<open>The state after one horizon has been loaded.\<close>

definition oneHorizonState :: app_state where
  "oneHorizonState = initialState\<lparr>horizonData := [singleHorizon ''Top'' 0 0 1000]\<rparr>"

text \<open>Top and base swapped: the first horizon lies at 900, the second at 1000.\<close>

definition swappedState :: app_state where
  "swappedState =
     initialState\<lparr>horizonData := [singleHorizon ''Top'' 0 0 900, singleHorizon ''Base'' 45 45 1000]\<rparr>"

definition slabBounds :: bounds where
  "slabBounds = \<lparr>xMin = 0, xMax = 900, yMin = 0, yMax = 900, zMin = 900, zMax = 1000\<rparr>"

text \<open>
  Two horizons of one sample each, the base 45.5 to the east and 45 to the north of the
  top: the spacing is 1, and the loop over \<open>x\<close> ends at 45.
\<close>

definition skewState :: app_state where
  "skewState =
     initialState\<lparr>horizonData := [singleHorizon ''Top'' 0 0 1000,
                                   singleHorizon ''Base'' (91 / 2) 45 900]\<rparr>"

definition skewBounds :: bounds where
  "skewBounds = \<lparr>xMin = 0, xMax = 91 / 2, yMin = 0, yMax = 45, zMin = 900, zMax = 1000\<rparr>"

text \<open>Two small grids and the state in which both are selected for a merge.\<close>

definition cellAt :: "real \<Rightarrow> real \<Rightarrow> real \<Rightarrow> cell" where
  "cellAt x y z =
     \<lparr>cx = x, cy = y, cz = z, layer = 0, bulkVolume = 100, cellFaultFlag = 0, wellPath = 0,
      porosity = 1 / 5, permeability = 10, structuralDip = 0, blend = None\<rparr>"

definition gridA :: grid where
  "gridA =
     \<lparr>gid = ''1'', gname = ''Grid_1'', points = [cellAt 0 0 0, cellAt 1000 100 100],
      totalVolume = 200, layerCount = 7, pointCount = 2,
      bounds = \<lparr>xMin = 0, xMax = 1000, yMin = 0, yMax = 100, zMin = 0, zMax = 100\<rparr>,
      timestamp = 1, origin = Generated ''Top, Base'' ''''\<rparr>"

definition gridB :: grid where
  "gridB =
     \<lparr>gid = ''2'', gname = ''Grid_2'', points = [cellAt 50 0 0, cellAt 1050 100 100],
      totalVolume = 300, layerCount = 7, pointCount = 2,
      bounds = \<lparr>xMin = 50, xMax = 1050, yMin = 0, yMax = 100, zMin = 0, zMax = 100\<rparr>,
      timestamp = 2, origin = Generated ''Top, Base'' ''''\<rparr>"

definition pairState :: "direction \<Rightarrow> app_state" where
  "pairState dir =
     initialState\<lparr>grids := [gridA, gridB], selectedGrids := [''1'', ''2''],
                  mergeDirection := dir\<rparr>"

text \<open>
  A grid far from grid A, with more layers and many more points, and a selection of
  grid A with four such grids.
\<close>

definition farGrid :: "string \<Rightarrow> grid" where
  "farGrid i =
     \<lparr>gid = i, gname = ''Grid_'' @ i, points = [cellAt 5000 0 0], totalVolume = 100,
      layerCount = 20, pointCount = 100,
      bounds = \<lparr>xMin = 5000, xMax = 6000, yMin = 0, yMax = 100, zMin = 0, zMax = 100\<rparr>,
      timestamp = 3, origin = Generated ''Top, Base'' ''''\<rparr>"

definition crowd :: "grid list" where
  "crowd = [gridA, farGrid ''3'', farGrid ''4'', farGrid ''5'', farGrid ''6'']"

text \<open>Two grids that differ in \<open>xMax\<close> only: 100 and 111.\<close>

definition narrowGrid :: grid where
  "narrowGrid =
     \<lparr>gid = ''n'', gname = ''Narrow'', points = [cellAt 0 0 0], totalVolume = 100,
      layerCount = 7, pointCount = 1,
      bounds = \<lparr>xMin = 0, xMax = 100, yMin = 0, yMax = 100, zMin = 0, zMax = 100\<rparr>,
      timestamp = 1, origin = Generated ''Top, Base'' ''''\<rparr>"

definition wideGrid :: grid where
  "wideGrid =
     \<lparr>gid = ''w'', gname = ''Wide'', points = [cellAt 0 0 0], totalVolume = 100,
      layerCount = 7, pointCount = 1,
      bounds = \<lparr>xMin = 0, xMax = 111, yMin = 0, yMax = 100, zMin = 0, zMax = 100\<rparr>,
      timestamp = 2, origin = Generated ''Top, Base'' ''''\<rparr>"

text \<open>
  A flat top at 1000 over a base that rises from 900 at the origin to 1100 at
  \<open>(45, 45)\<close>: the base is above the top in the far corner only.
\<close>

definition crossingState :: app_state where
  "crossingState =
     initialState\<lparr>horizonData :=
       [singleHorizon ''Top'' 0 0 1000,
        \<lparr>dname = ''Base'',
         dpoints = [\<lparr>px = 0, py = 0, pz = 900, segId = None\<rparr>,
                    \<lparr>px = 45, py = 45, pz = 1100, segId = None\<rparr>]\<rparr>]\<rparr>"

definition crossingBounds :: bounds where
  "crossingBounds = \<lparr>xMin = 0, xMax = 45, yMin = 0, yMax = 45, zMin = 900, zMax = 1100\<rparr>"

section \<open>The nearest sample\<close>

lemma hd_sort_key_min:
  assumes "xs \<noteq> []"
  shows "hd (sort_key f xs) \<in> set xs \<and> (\<forall>y \<in> set xs. f (hd (sort_key f xs)) \<le> f y)"
proof -
  have ne: "sort_key f xs \<noteq> []"
    using assms by (metis length_0_conv length_sort)
  then obtain a rest where ar: "sort_key f xs = a # rest"
    by (cases "sort_key f xs") auto
  have "sorted (map f (sort_key f xs))"
    by (rule sorted_sort_key)
  with ar have "\<forall>y \<in> set (a # rest). f a \<le> f y"
    by auto
  moreover have "set (a # rest) = set xs"
    using ar by (metis set_sort)
  ultimately show ?thesis
    using ar by auto
qed

lemma planarDistance_self: "planarDistance (px p) (py p) p = 0"
  by (simp add: planarDistance_def)

lemma planarDistance_nonneg: "0 \<le> planarDistance x y p"
  by (simp add: planarDistance_def)

text \<open>The first of the nearest points is a sample at the least distance.\<close>

lemma nearestPoints_hd:
  assumes "pts \<noteq> []" "0 < K"
  shows "\<exists>q rest. nearestPoints K x y pts = (planarDistance x y q, q) # rest \<and> q \<in> set pts \<and>
           (\<forall>p \<in> set pts. planarDistance x y q \<le> planarDistance x y p)"
proof -
  let ?ds = "map (\<lambda>p. (planarDistance x y p, p)) pts"
  have ne: "?ds \<noteq> []"
    using assms by simp
  from hd_sort_key_min [OF ne, of fst]
  have h: "hd (sort_key fst ?ds) \<in> set ?ds" "\<forall>y \<in> set ?ds. fst (hd (sort_key fst ?ds)) \<le> fst y"
    by blast+
  have "sort_key fst ?ds \<noteq> []"
    using ne by (metis length_0_conv length_sort)
  then obtain a rest where ar: "sort_key fst ?ds = a # rest"
    by (cases "sort_key fst ?ds") auto
  from h(1) ar obtain q where q: "q \<in> set pts" "a = (planarDistance x y q, q)"
    by auto
  have "0 < min K (length pts)"
    using assms by (cases pts) auto
  then obtain m where m: "min K (length pts) = Suc m"
    by (cases "min K (length pts)") auto
  have "nearestPoints K x y pts = a # take m rest"
    unfolding nearestPoints_def ar m by simp
  moreover have "\<forall>p \<in> set pts. planarDistance x y q \<le> planarDistance x y p"
    using h(2) ar q by auto
  ultimately show ?thesis
    using q by blast
qed

section \<open>Interpolation over a flat horizon\<close>

lemma idwStep_flat:
  assumes "pz (snd n) = c" "0 < d0"
  shows "\<exists>w'. idwStep d0 n (w, c * w) = (w', c * w') \<and> w < w'"
proof -
  have "0 < max (fst n) d0"
    using assms(2) by (simp add: less_max_iff_disj)
  then have "0 < 1 / (max (fst n) d0) ^ 2"
    by simp
  then show ?thesis
    using assms(1) by (simp add: idwStep_def Let_def algebra_simps)
qed

lemma fold_idwStep_flat:
  assumes "\<forall>n \<in> set ns. pz (snd n) = c" "0 < d0"
  shows "\<exists>w'. fold (idwStep d0) ns (w, c * w) = (w', c * w') \<and> w \<le> w' \<and> (ns \<noteq> [] \<longrightarrow> w < w')"
  using assms(1)
proof (induction ns arbitrary: w)
  case Nil
  then show ?case by simp
next
  case (Cons n ns)
  from idwStep_flat [of n c d0 w] Cons.prems assms(2)
  obtain w1 where w1: "idwStep d0 n (w, c * w) = (w1, c * w1)" "w < w1"
    by auto
  from Cons.IH [of w1] Cons.prems
  obtain w2 where w2: "fold (idwStep d0) ns (w1, c * w1) = (w2, c * w2)" "w1 \<le> w2"
    by auto
  show ?case
    using w1 w2 by auto
qed

lemma nearestPoints_subset: "snd ` set (nearestPoints K x y pts) \<subseteq> set pts"
proof -
  have "set (nearestPoints K x y pts) \<subseteq> set (sort_key fst (map (\<lambda>p. (planarDistance x y p, p)) pts))"
    unfolding nearestPoints_def by (rule set_take_subset)
  then show ?thesis
    by auto
qed

lemma geologicalInterpolation_flat:
  assumes "pts \<noteq> []" "\<forall>p \<in> set pts. pz p = c"
  shows "geologicalInterpolation x y pts = c"
proof -
  from nearestPoints_hd [OF assms(1), of 6 x y]
  obtain q rest where q: "nearestPoints 6 x y pts = (planarDistance x y q, q) # rest" "q \<in> set pts"
    by auto
  let ?ns = "(planarDistance x y q, q) # rest"
  have flat: "\<forall>n \<in> set ?ns. pz (snd n) = c"
    using nearestPoints_subset [of 6 x y pts] assms(2) unfolding q(1) by auto
  from fold_idwStep_flat [OF flat, of "0.1" 0]
  obtain w where w: "fold (idwStep 0.1) ?ns (0, 0) = (w, c * w)" "0 < w"
    by auto
  have "pz q = c"
    using assms(2) q(2) by simp
  then show ?thesis
    using assms(1) w unfolding geologicalInterpolation_def q(1) by (simp add: Let_def)
qed

section \<open>The sampling loops in closed form\<close>

text \<open>
  With a positive spacing both loops return, and what they compute is the fold of the
  loop body over the positions they visit.
\<close>

lemma yLoop_returns:
  assumes "0 < e_gridSpacing env"
  shows "yLoop env x y st =
     Some (fold (columnStep env x) (axisFrom y (yMax (e_bounds env)) (e_gridSpacing env)) st)"
  using assms
proof (induction y "yMax (e_bounds env)" "e_gridSpacing env" arbitrary: st rule: axisFrom.induct)
  case (1 v)
  show ?case
  proof (cases "v \<le> yMax (e_bounds env)")
    case True
    with 1 show ?thesis
      by (subst yLoop.simps, subst axisFrom.simps) simp
  next
    case False
    then show ?thesis
      by (subst yLoop.simps, subst axisFrom.simps) simp
  qed
qed

lemma xLoop_returns_aux:
  assumes "0 < e_gridSpacing env"
  shows "xLoop env x st =
     Some (fold (\<lambda>x'. fold (columnStep env x')
                         (axisFrom (yMin (e_bounds env)) (yMax (e_bounds env)) (e_gridSpacing env)))
                (axisFrom x (xMax (e_bounds env)) (e_gridSpacing env)) st)"
  using assms
proof (induction x "xMax (e_bounds env)" "e_gridSpacing env" arbitrary: st rule: axisFrom.induct)
  case (1 v)
  show ?case
  proof (cases "v \<le> xMax (e_bounds env)")
    case True
    with 1 show ?thesis
      by (subst xLoop.simps, subst axisFrom.simps) (simp add: yLoop_returns)
  next
    case False
    then show ?thesis
      by (subst xLoop.simps, subst axisFrom.simps) simp
  qed
qed

lemma fold_concat_map_pairs:
  "fold (\<lambda>pos. f (fst pos) (snd pos)) (concat (map (\<lambda>a. map (\<lambda>b. (a, b)) ys) xs)) st =
   fold (\<lambda>a. fold (f a) ys) xs st"
proof (induction xs arbitrary: st)
  case Nil
  then show ?case by simp
next
  case (Cons a xs)
  have "fold (\<lambda>pos. f (fst pos) (snd pos)) (map (\<lambda>b. (a, b)) ys) s = fold (f a) ys s" for s
    by (induction ys arbitrary: s) simp_all
  with Cons show ?case by simp
qed

lemma xLoop_returns:
  assumes "0 < e_gridSpacing env"
  shows "xLoop env (xMin (e_bounds env)) st =
     Some (fold (\<lambda>pos. columnStep env (fst pos) (snd pos)) (samplePositions env) st)"
  unfolding samplePositions_def fold_concat_map_pairs
  by (rule xLoop_returns_aux [OF assms])

text \<open>With a spacing of 0 the inner loop never returns once it is entered.\<close>

lemma yLoop_diverges_aux:
  assumes "yLoop env x y st = Some r"
  shows "e_gridSpacing env \<le> 0 \<longrightarrow> \<not> y \<le> yMax (e_bounds env)"
proof (rule yLoop.raw_induct
    [where P = "\<lambda>env x y st r. e_gridSpacing env \<le> 0 \<longrightarrow> \<not> y \<le> yMax (e_bounds env)"
       and xa = "(((env, x), y), st)" and ya = r, simplified])
  show "yLoop env x y st = Some r"
    by (rule assms)
next
  fix f :: "gen_env \<Rightarrow> real \<Rightarrow> real \<Rightarrow> gen_state \<Rightarrow> gen_state option"
    and e x' y' s r'
  assume ih: "\<And>x y st b ya. f x y st b = Some ya \<Longrightarrow> e_gridSpacing x \<le> 0 \<longrightarrow> \<not> st \<le> yMax (e_bounds x)"
    and step: "(if y' \<le> yMax (e_bounds e) then f e x' (y' + e_gridSpacing e) (columnStep e x' y' s)
                else Some s) = Some r'"
  show "e_gridSpacing e \<le> 0 \<longrightarrow> \<not> y' \<le> yMax (e_bounds e)"
  proof (intro impI notI)
    assume neg: "e_gridSpacing e \<le> 0" and le: "y' \<le> yMax (e_bounds e)"
    from step le have "f e x' (y' + e_gridSpacing e) (columnStep e x' y' s) = Some r'"
      by simp
    from ih [OF this] neg have "\<not> y' + e_gridSpacing e \<le> yMax (e_bounds e)"
      by blast
    with neg le show False
      by linarith
  qed
qed

lemma yLoop_diverges:
  "e_gridSpacing env \<le> 0 \<Longrightarrow> y \<le> yMax (e_bounds env) \<Longrightarrow> yLoop env x y st = None"
  using yLoop_diverges_aux [of env x y st] by (cases "yLoop env x y st") auto

lemma xLoop_diverges:
  assumes "e_gridSpacing env \<le> 0" "x \<le> xMax (e_bounds env)"
    and "yMin (e_bounds env) \<le> yMax (e_bounds env)"
  shows "xLoop env x st = None"
  by (subst xLoop.simps) (simp add: assms yLoop_diverges)

section \<open>What one position contributes\<close>

lemma layerStep_fields:
  "\<exists>c. grid_acc (layerStep env x y topZ bottomZ i st) = grid_acc st @ [c] \<and>
       cx c = roundTo 100 x \<and> cy c = roundTo 100 y \<and> layer c = i"
  "pointCount_acc (layerStep env x y topZ bottomZ i st) = pointCount_acc st + 1"
  "draws (layerStep env x y topZ bottomZ i st) = draws st + 4"
  by (simp_all add: layerStep_def Let_def)

lemma fold_layerStep:
  "\<exists>cs. grid_acc (fold (layerStep env x y topZ bottomZ) idxs st) = grid_acc st @ cs \<and>
        length cs = length idxs \<and>
        (\<forall>c \<in> set cs. cx c = roundTo 100 x \<and> cy c = roundTo 100 y)"
  "pointCount_acc (fold (layerStep env x y topZ bottomZ) idxs st) = pointCount_acc st + length idxs"
proof (induction idxs arbitrary: st)
  case Nil
  {
    case 1 show ?case by simp
  next
    case 2 show ?case by simp
  }
next
  case (Cons i idxs)
  {
    case 1
    from layerStep_fields(1) [of env x y topZ bottomZ i st]
    obtain c where c: "grid_acc (layerStep env x y topZ bottomZ i st) = grid_acc st @ [c]"
      "cx c = roundTo 100 x" "cy c = roundTo 100 y"
      by blast
    from Cons.IH(1) [of "layerStep env x y topZ bottomZ i st"]
    obtain cs where cs: "grid_acc (fold (layerStep env x y topZ bottomZ) idxs
                            (layerStep env x y topZ bottomZ i st))
                         = grid_acc (layerStep env x y topZ bottomZ i st) @ cs"
      "length cs = length idxs" "\<forall>c \<in> set cs. cx c = roundTo 100 x \<and> cy c = roundTo 100 y"
      by blast
    show ?case
      by (rule exI [of _ "c # cs"]) (simp add: c cs)
  next
    case 2
    show ?case
      by (simp add: Cons.IH(2) layerStep_fields(2))
  }
qed

lemma columnStep_degenerate:
  "degenerate env (x, y) \<Longrightarrow> columnStep env x y st = st"
  by (simp add: columnStep_def degenerate_def)

lemma columnStep_cells:
  "\<exists>cs. grid_acc (columnStep env x y st) = grid_acc st @ cs \<and>
        length cs = (if degenerate env (x, y) then 0 else e_numLayers env + 2) \<and>
        (\<forall>c \<in> set cs. cx c = roundTo 100 x \<and> cy c = roundTo 100 y)"
proof (cases "degenerate env (x, y)")
  case True
  then show ?thesis
    by (simp add: columnStep_degenerate)
next
  case False
  from fold_layerStep(1) [of env x y _ _ "[0 ..< e_numLayers env + 2]" st] False
  show ?thesis
    by (simp add: columnStep_def degenerate_def Let_def)
qed

lemma columnStep_pointCount:
  "pointCount_acc (columnStep env x y st) =
     pointCount_acc st + (if degenerate env (x, y) then 0 else e_numLayers env + 2)"
  by (simp add: columnStep_def degenerate_def Let_def fold_layerStep(2) del: upt_Suc)

text \<open>Cells and count of a run over a list of positions.\<close>

lemma fold_columnStep_skip:
  "fold (\<lambda>pos. columnStep env (fst pos) (snd pos)) ps st =
   fold (\<lambda>pos. columnStep env (fst pos) (snd pos)) (filter (\<lambda>pos. \<not> degenerate env pos) ps) st"
  by (induction ps arbitrary: st) (simp_all add: columnStep_degenerate)

lemma fold_columnStep_pointCount:
  "pointCount_acc (fold (\<lambda>pos. columnStep env (fst pos) (snd pos)) ps st) =
     pointCount_acc st + (e_numLayers env + 2) * length (filter (\<lambda>pos. \<not> degenerate env pos) ps)"
  by (induction ps arbitrary: st) (simp_all add: columnStep_pointCount)

lemma fold_columnStep_cells:
  "\<exists>cs. grid_acc (fold (\<lambda>pos. columnStep env (fst pos) (snd pos)) ps st) = grid_acc st @ cs \<and>
        length cs = (e_numLayers env + 2) * length (filter (\<lambda>pos. \<not> degenerate env pos) ps) \<and>
        (\<forall>c \<in> set cs. \<exists>pos \<in> set ps. \<not> degenerate env pos \<and>
                          cx c = roundTo 100 (fst pos) \<and> cy c = roundTo 100 (snd pos))"
proof (induction ps arbitrary: st)
  case Nil
  show ?case by simp
next
  case (Cons pos ps)
  from columnStep_cells [of env "fst pos" "snd pos" st]
  obtain cs1 where cs1:
    "grid_acc (columnStep env (fst pos) (snd pos) st) = grid_acc st @ cs1"
    "length cs1 = (if degenerate env pos then 0 else e_numLayers env + 2)"
    "\<forall>c \<in> set cs1. cx c = roundTo 100 (fst pos) \<and> cy c = roundTo 100 (snd pos)"
    by auto
  from Cons [of "columnStep env (fst pos) (snd pos) st"]
  obtain cs2 where cs2:
    "grid_acc (fold (\<lambda>pos. columnStep env (fst pos) (snd pos)) ps
                 (columnStep env (fst pos) (snd pos) st))
       = grid_acc (columnStep env (fst pos) (snd pos) st) @ cs2"
    "length cs2 = (e_numLayers env + 2) * length (filter (\<lambda>pos. \<not> degenerate env pos) ps)"
    "\<forall>c \<in> set cs2. \<exists>pos \<in> set ps. \<not> degenerate env pos \<and>
        cx c = roundTo 100 (fst pos) \<and> cy c = roundTo 100 (snd pos)"
    by blast
  have nondeg: "cs1 = [] \<or> \<not> degenerate env pos"
    using cs1(2) by auto
  show ?case
  proof (rule exI [of _ "cs1 @ cs2"], intro conjI ballI)
    show "grid_acc (fold (\<lambda>pos. columnStep env (fst pos) (snd pos)) (pos # ps) st)
            = grid_acc st @ cs1 @ cs2"
      by (simp add: cs1(1) cs2(1))
    show "length (cs1 @ cs2)
            = (e_numLayers env + 2) * length (filter (\<lambda>pos. \<not> degenerate env pos) (pos # ps))"
      by (simp add: cs1(2) cs2(2))
    fix c
    assume "c \<in> set (cs1 @ cs2)"
    then consider "c \<in> set cs1" | "c \<in> set cs2"
      by auto
    then show "\<exists>p \<in> set (pos # ps). \<not> degenerate env p \<and>
                 cx c = roundTo 100 (fst p) \<and> cy c = roundTo 100 (snd p)"
    proof cases
      case 1
      with nondeg cs1(3) show ?thesis by auto
    next
      case 2
      with cs2(3) show ?thesis by auto
    qed
  qed
qed

section \<open>A generation run that returns\<close>

text \<open>
  With two horizons that hold a point, spread in \<open>x\<close> and in \<open>y\<close>, the spacing is
  positive, the run returns, and the grid it registers is built from the final state of
  the loops.
\<close>

lemma generate_returns:
  assumes two: "2 \<le> length (horizonData s)"
    and env: "envelopeOf (map pointCoords (dpoints (horizonData s ! 0) @ dpoints (horizonData s ! 1)))
                = Some bnds"
    and wide: "xMin bnds < xMax bnds" "yMin bnds < yMax bnds"
  shows "\<exists>g. generateGeologicalGrid random now s =
               Some (Inr g, s\<lparr>grids := grids s @ [g], activeGridId := Some (gid g),
                              isGenerating := False\<rparr>) \<and>
             points g = grid_acc (fold (\<lambda>pos. columnStep (envOf random s bnds) (fst pos) (snd pos))
                                    (samplePositions (envOf random s bnds))
                                    \<lparr>grid_acc = [], totalVolume_acc = 0, pointCount_acc = 0, draws = 0\<rparr>) \<and>
             pointCount g = pointCount_acc (fold (\<lambda>pos. columnStep (envOf random s bnds) (fst pos) (snd pos))
                                    (samplePositions (envOf random s bnds))
                                    \<lparr>grid_acc = [], totalVolume_acc = 0, pointCount_acc = 0, draws = 0\<rparr>) \<and>
             bounds g = bnds \<and> layerCount g = numLayers s + 2"
proof -
  let ?env = "envOf random s bnds"
  let ?init = "\<lparr>grid_acc = [], totalVolume_acc = 0, pointCount_acc = 0, draws = 0\<rparr>"
  let ?fin = "fold (\<lambda>pos. columnStep ?env (fst pos) (snd pos)) (samplePositions ?env) ?init"
  have sp: "0 < e_gridSpacing ?env"
    using wide by (simp add: envOf_def)
  have b: "e_bounds ?env = bnds"
    by (simp add: envOf_def)
  from xLoop_returns [OF sp, of ?init] b
  have loop: "xLoop ?env (xMin bnds) ?init = Some ?fin"
    by simp
  have n2: "\<not> length (horizonData s) < 2"
    using two by simp
  define g where "g =
     \<lparr>gid = showNat now,
      gname = ''Grid_'' @ showNat (length (grids s) + 1),
      points = grid_acc ?fin,
      totalVolume = jsRound (totalVolume_acc ?fin),
      layerCount = numLayers s + 2,
      pointCount = pointCount_acc ?fin,
      bounds = bnds,
      timestamp = now,
      origin = Generated (joinWith '', '' (map dname (horizonData s)))
                         (joinWith '', '' (map dname (faultData s)))\<rparr>"
  have "generateGeologicalGrid random now s =
          Some (Inr g, s\<lparr>grids := grids s @ [g], activeGridId := Some (gid g),
                         isGenerating := False\<rparr>)"
    unfolding generateGeologicalGrid_def Let_def
    apply (simp only: n2 if_False env option.case)
    apply (simp only: loop [unfolded envOf_def] bind.bind_lunit)
    apply (simp only: g_def envOf_def)
    done
  moreover have "points g = grid_acc ?fin" "pointCount g = pointCount_acc ?fin"
    "bounds g = bnds" "layerCount g = numLayers s + 2"
    by (simp_all add: g_def)
  ultimately show ?thesis
    by blast
qed

section \<open>Interpolation at a sample\<close>

text \<open>
  Claim C6, as amended. For the interpolator of the grid tool (the six nearest samples,
  with the short cut below distance 1): when \<open>p\<close> is the unique nearest sample of its own
  location, the elevation there is \<open>pz p\<close> exactly.
\<close>

theorem C6_exact_at_unique_nearest_sample:
  assumes "uniqueNearest (px p) (py p) p pts"
  shows "geologicalInterpolation (px p) (py p) pts = pz p"
proof -
  from assms have mem: "p \<in> set pts"
    and uniq: "\<forall>q \<in> set pts. q \<noteq> p \<longrightarrow> planarDistance (px p) (py p) p < planarDistance (px p) (py p) q"
    by (simp_all add: uniqueNearest_def)
  have ne: "pts \<noteq> []"
    using mem by auto
  from nearestPoints_hd [OF ne, of 6 "px p" "py p"]
  obtain q rest where q:
    "nearestPoints 6 (px p) (py p) pts = (planarDistance (px p) (py p) q, q) # rest"
    "q \<in> set pts"
    "\<forall>r \<in> set pts. planarDistance (px p) (py p) q \<le> planarDistance (px p) (py p) r"
    by auto
  from q(3) mem have "planarDistance (px p) (py p) q \<le> planarDistance (px p) (py p) p"
    by blast
  with uniq q(2) have "q = p"
    by force
  with q(1) ne show ?thesis
    by (simp add: geologicalInterpolation_def planarDistance_self)
qed

theorem C6_exact_at_unique_nearest_sample_witness:
  "uniqueNearest 0 0 \<lparr>px = 0, py = 0, pz = 10, segId = None\<rparr>
     [\<lparr>px = 0, py = 0, pz = 10, segId = None\<rparr>, \<lparr>px = 2, py = 0, pz = 20, segId = None\<rparr>] \<and>
   geologicalInterpolation 0 0
     [\<lparr>px = 0, py = 0, pz = 10, segId = None\<rparr>, \<lparr>px = 2, py = 0, pz = 20, segId = None\<rparr>] = 10"
proof -
  have u: "uniqueNearest (px \<lparr>px = 0, py = 0, pz = 10, segId = None\<rparr>)
             (py \<lparr>px = 0, py = 0, pz = 10, segId = None\<rparr>) \<lparr>px = 0, py = 0, pz = 10, segId = None\<rparr>
             [\<lparr>px = 0, py = 0, pz = 10, segId = None\<rparr>, \<lparr>px = 2, py = 0, pz = 20, segId = None\<rparr>]"
    by (simp add: uniqueNearest_def planarDistance_def)
  from C6_exact_at_unique_nearest_sample [OF u] u show ?thesis
    by simp
qed

text \<open>
  The interpolator of the utility module has no short cut: at the sample \<open>(0, 0, 10)\<close>,
  with the only other sample \<open>(2, 0, 20)\<close> at distance 2, it returns the weighted mean
  \<open>(10 + 20/4) / (1 + 1/4) = 12\<close>.
\<close>

theorem C6_counterexample:
  "uniqueNearest 0 0 \<lparr>px = 0, py = 0, pz = 10, segId = None\<rparr>
     [\<lparr>px = 0, py = 0, pz = 10, segId = None\<rparr>, \<lparr>px = 2, py = 0, pz = 20, segId = None\<rparr>] \<and>
   geologicalInterpolation_utils 0 0
     [\<lparr>px = 0, py = 0, pz = 10, segId = None\<rparr>, \<lparr>px = 2, py = 0, pz = 20, segId = None\<rparr>] = 12"
  by (simp add: uniqueNearest_def geologicalInterpolation_utils_def nearestPoints_def
      planarDistance_def idwStep_def)

section \<open>Fault influence away from every fault\<close>

lemma faultStep_outside:
  "\<not> spatialDistance x y z p < influenceRadius \<Longrightarrow> faultStep k x y z influenceRadius p acc = acc"
  by (simp add: faultStep_def)

lemma fold_faultStep_outside:
  "\<forall>p \<in> set ps. \<not> spatialDistance x y z p < influenceRadius \<Longrightarrow>
   fold (faultStep k x y z influenceRadius) ps acc = acc"
  by (induction ps arbitrary: acc) (simp_all add: faultStep_outside)

lemma faultScan_outside_aux:
  "\<forall>f \<in> set faults. \<forall>p \<in> set (dpoints f). \<not> spatialDistance x y z p < influenceRadius \<Longrightarrow>
   fold (\<lambda>fault. fold (faultStep k x y z influenceRadius) (dpoints fault)) faults acc = acc"
  by (induction faults arbitrary: acc) (simp_all add: fold_faultStep_outside)

lemma faultScan_outside:
  "\<forall>f \<in> set faults. \<forall>p \<in> set (dpoints f). \<not> spatialDistance x y z p < influenceRadius \<Longrightarrow>
   faultScan k x y z influenceRadius faults =
     \<lparr>totalInfluence = 0, dominantFault = 0, maxInfluence = 0\<rparr>"
  unfolding faultScan_def by (rule faultScan_outside_aux)

text \<open>
  Claim C10. When no trace point of any fault system lies strictly within the influence
  radius of the query point (in particular when there is no fault system), the estimator
  returns influence 0, fault flag 0 and displacement 0, whatever the random draw \<open>r\<close> is.
  This holds for the tool's function and for the utility module's.
\<close>

theorem C10_no_fault_in_radius:
  assumes "\<forall>f \<in> set faults. \<forall>p \<in> set (dpoints f). \<not> spatialDistance x y z p < influenceRadius"
  shows "calculateAdvancedFaultInfluence x y z faults influenceRadius r =
           \<lparr>influence = 0, faultFlag = 0, displacement = 0\<rparr> \<and>
         calculateAdvancedFaultInfluence_utils x y z faults influenceRadius r =
           \<lparr>influence = 0, faultFlag = 0, displacement = 0\<rparr>"
  using faultScan_outside [OF assms]
  by (simp add: calculateAdvancedFaultInfluence_def calculateAdvancedFaultInfluence_utils_def)

text \<open>
  A fault trace point 1000 units away from the query point, with the default radius 120.
\<close>

theorem C10_no_fault_in_radius_witness:
  "calculateAdvancedFaultInfluence 0 0 0
     [\<lparr>dname = ''F1'', dpoints = [\<lparr>px = 1000, py = 0, pz = 0, segId = Some 2\<rparr>]\<rparr>] 120 (1/4)
     = \<lparr>influence = 0, faultFlag = 0, displacement = 0\<rparr> \<and>
   calculateAdvancedFaultInfluence_utils 0 0 0
     [\<lparr>dname = ''F1'', dpoints = [\<lparr>px = 1000, py = 0, pz = 0, segId = Some 2\<rparr>]\<rparr>] 100 (1/4)
     = \<lparr>influence = 0, faultFlag = 0, displacement = 0\<rparr>"
proof -
  have h: "\<forall>f \<in> set [\<lparr>dname = ''F1'', dpoints = [\<lparr>px = 1000, py = 0, pz = 0, segId = Some 2\<rparr>]\<rparr>].
      \<forall>p \<in> set (dpoints f). \<not> spatialDistance 0 0 0 p < r" if "r \<le> 120" for r
    using that by (simp add: spatialDistance_def)
  have "(120::real) \<le> 120" "(100::real) \<le> 120"
    by simp_all
  from C10_no_fault_in_radius [OF h [OF this(1)], of "1/4"]
       C10_no_fault_in_radius [OF h [OF this(2)], of "1/4"]
  show ?thesis
    by blast
qed

section \<open>Generation without two horizons\<close>

text \<open>
  Claim C8, as amended. With fewer than two horizons \<open>generateGeologicalGrid\<close> shows its
  alert and returns: it raises no error, and it leaves the whole state, the grids among
  it, as it was, so that no grid is registered or returned.
\<close>

theorem C8_alert_and_no_mutation:
  assumes "length (horizonData s) < 2"
  shows "generateGeologicalGrid random now s = Some (Inl (Alerted NeedTwoHorizons), s) \<and>
         \<not> raisesError (generateGeologicalGrid random now s)"
  using assms by (simp add: generateGeologicalGrid_def raisesError_def)

theorem C8_alert_and_no_mutation_witness:
  "length (horizonData oneHorizonState) < 2 \<and>
   generateGeologicalGrid (\<lambda>i. 0) 0 oneHorizonState
     = Some (Inl (Alerted NeedTwoHorizons), oneHorizonState) \<and>
   grids oneHorizonState = []"
proof -
  have h: "length (horizonData oneHorizonState) < 2"
    by (simp add: oneHorizonState_def)
  have "grids oneHorizonState = []"
    by (simp add: oneHorizonState_def initialState_def)
  with C8_alert_and_no_mutation [OF h, of "\<lambda>i. 0" 0] h show ?thesis
    by blast
qed

text \<open>
  Against the claim as stated: with the one horizon of this state the call does not end
  by an error of any type. It shows the alert and returns, as a call that succeeds
  returns.
\<close>

theorem C8_counterexample:
  "length (horizonData oneHorizonState) < 2 \<and>
   \<not> raisesError (generateGeologicalGrid (\<lambda>i. 0) 0 oneHorizonState) \<and>
   generateGeologicalGrid (\<lambda>i. 0) 0 oneHorizonState
     = Some (Inl (Alerted NeedTwoHorizons), oneHorizonState)"
  by (simp add: generateGeologicalGrid_def raisesError_def oneHorizonState_def)

section \<open>Positions where the top is not above the bottom\<close>

text \<open>
  Claim C9. A generation run over two horizons with a spread in \<open>x\<close> and \<open>y\<close> returns
  a grid, with no failure, and the positions where the interpolated top is not above the
  interpolated bottom leave no trace in it: its cells are those of the run over the
  other positions alone, in the same order and with the same random draws; its
  \<open>pointCount\<close> is \<open>numLayers + 2\<close> for each of the other positions; and every cell sits
  at one of them.
\<close>

theorem C9_degenerate_positions_skipped:
  assumes "2 \<le> length (horizonData s)"
    and "envelopeOf (map pointCoords (dpoints (horizonData s ! 0) @ dpoints (horizonData s ! 1)))
           = Some bnds"
    and "xMin bnds < xMax bnds" "yMin bnds < yMax bnds"
  shows "\<exists>g s'. generateGeologicalGrid random now s = Some (Inr g, s') \<and>
           points g = grid_acc (fold (\<lambda>pos. columnStep (envOf random s bnds) (fst pos) (snd pos))
                                  (filter (\<lambda>pos. \<not> degenerate (envOf random s bnds) pos)
                                     (samplePositions (envOf random s bnds)))
                                  \<lparr>grid_acc = [], totalVolume_acc = 0, pointCount_acc = 0, draws = 0\<rparr>) \<and>
           pointCount g = (numLayers s + 2) *
              length (filter (\<lambda>pos. \<not> degenerate (envOf random s bnds) pos)
                        (samplePositions (envOf random s bnds))) \<and>
           length (points g) = pointCount g \<and>
           (\<forall>c \<in> set (points g). \<exists>pos \<in> set (samplePositions (envOf random s bnds)).
               \<not> degenerate (envOf random s bnds) pos \<and>
               cx c = roundTo 100 (fst pos) \<and> cy c = roundTo 100 (snd pos))"
proof -
  let ?env = "envOf random s bnds"
  let ?init = "\<lparr>grid_acc = [], totalVolume_acc = 0, pointCount_acc = 0, draws = 0\<rparr>"
  from generate_returns [OF assms, of random now]
  obtain g where g:
    "generateGeologicalGrid random now s =
       Some (Inr g, s\<lparr>grids := grids s @ [g], activeGridId := Some (gid g), isGenerating := False\<rparr>)"
    "points g = grid_acc (fold (\<lambda>pos. columnStep ?env (fst pos) (snd pos)) (samplePositions ?env) ?init)"
    "pointCount g = pointCount_acc (fold (\<lambda>pos. columnStep ?env (fst pos) (snd pos))
                                      (samplePositions ?env) ?init)"
    by blast
  have L: "e_numLayers ?env = numLayers s"
    by (simp add: envOf_def)
  from fold_columnStep_cells [of ?env "samplePositions ?env" ?init]
  obtain cs where cs:
    "grid_acc (fold (\<lambda>pos. columnStep ?env (fst pos) (snd pos)) (samplePositions ?env) ?init) = cs"
    "length cs = (numLayers s + 2) * length (filter (\<lambda>pos. \<not> degenerate ?env pos) (samplePositions ?env))"
    "\<forall>c \<in> set cs. \<exists>pos \<in> set (samplePositions ?env). \<not> degenerate ?env pos \<and>
        cx c = roundTo 100 (fst pos) \<and> cy c = roundTo 100 (snd pos)"
    unfolding L by auto
  have 1: "points g = grid_acc (fold (\<lambda>pos. columnStep ?env (fst pos) (snd pos))
                                  (filter (\<lambda>pos. \<not> degenerate ?env pos) (samplePositions ?env)) ?init)"
    unfolding g(2) by (rule arg_cong [OF fold_columnStep_skip])
  have 2: "pointCount g = (numLayers s + 2) *
              length (filter (\<lambda>pos. \<not> degenerate ?env pos) (samplePositions ?env))"
    unfolding g(3) fold_columnStep_pointCount L by simp
  have 3: "length (points g) = pointCount g"
    unfolding 2 g(2) cs(1) by (rule cs(2))
  have 4: "\<forall>c \<in> set (points g). \<exists>pos \<in> set (samplePositions ?env).
               \<not> degenerate ?env pos \<and> cx c = roundTo 100 (fst pos) \<and> cy c = roundTo 100 (snd pos)"
    unfolding g(2) cs(1) by (rule cs(3))
  from g(1) 1 2 3 4 show ?thesis
    by blast
qed

text \<open>The two scenarios: horizons swapped, and a base that crosses the top.\<close>

lemma swapped_envelope:
  "envelopeOf (map pointCoords (dpoints (horizonData swappedState ! 0) @ dpoints (horizonData swappedState ! 1)))
     = Some \<lparr>xMin = 0, xMax = 45, yMin = 0, yMax = 45, zMin = 900, zMax = 1000\<rparr>"
  by (simp add: swappedState_def singleHorizon_def envelopeOf_def pointCoords_def)

lemma swapped_all_degenerate:
  "degenerate (envOf random swappedState bnds) pos"
proof -
  have "geologicalInterpolation x y [\<lparr>px = 0, py = 0, pz = 900, segId = None\<rparr>] = 900"
       "geologicalInterpolation x y [\<lparr>px = 45, py = 45, pz = 1000, segId = None\<rparr>] = 1000" for x y
    by (rule geologicalInterpolation_flat; simp)+
  then show ?thesis
    unfolding degenerate_def by (simp add: envOf_def swappedState_def singleHorizon_def)
qed

lemma crossing_envelope:
  "envelopeOf (map pointCoords (dpoints (horizonData crossingState ! 0)
                                @ dpoints (horizonData crossingState ! 1)))
     = Some crossingBounds"
  by (simp add: crossingState_def crossingBounds_def singleHorizon_def envelopeOf_def pointCoords_def)

lemma axis46: "axisFrom 0 45 1 = map real [0 ..< 46]"
  by (simp add: axisFrom.simps upt_conv_Cons)

lemma crossing_positions:
  "length (samplePositions (envOf random crossingState crossingBounds)) = 2116"
  "(0, 0) \<in> set (samplePositions (envOf random crossingState crossingBounds))"
  "(45, 45) \<in> set (samplePositions (envOf random crossingState crossingBounds))"
proof -
  have sp: "samplePositions (envOf random crossingState crossingBounds)
              = concat (map (\<lambda>x. map (Pair x) (map real [0 ..< 46])) (map real [0 ..< 46]))"
    by (simp add: samplePositions_def envOf_def crossingBounds_def axis46)
  show "length (samplePositions (envOf random crossingState crossingBounds)) = 2116"
    unfolding sp by (simp add: length_concat comp_def sum_list_triv)
  have mem: "(real a, real b) \<in> set (samplePositions (envOf random crossingState crossingBounds))"
    if "a < 46" "b < 46" for a b
    unfolding sp using that by (auto intro!: bexI [of _ a] image_eqI [of _ _ b])
  from mem [of 0 0] show "(0, 0) \<in> set (samplePositions (envOf random crossingState crossingBounds))"
    by simp
  from mem [of 45 45] show "(45, 45) \<in> set (samplePositions (envOf random crossingState crossingBounds))"
    by simp
qed

lemma crossing_degenerate:
  "\<not> degenerate (envOf random crossingState crossingBounds) (0, 0)"
  "degenerate (envOf random crossingState crossingBounds) (45, 45)"
proof -
  have top: "geologicalInterpolation x y [\<lparr>px = 0, py = 0, pz = 1000, segId = None\<rparr>] = 1000" for x y
    by (rule geologicalInterpolation_flat) simp_all
  have "geologicalInterpolation 0 0 [\<lparr>px = 0, py = 0, pz = 900, segId = None\<rparr>,
                    \<lparr>px = 45, py = 45, pz = 1100, segId = None\<rparr>] = 900"
    "geologicalInterpolation 45 45 [\<lparr>px = 0, py = 0, pz = 900, segId = None\<rparr>,
                    \<lparr>px = 45, py = 45, pz = 1100, segId = None\<rparr>] = 1100"
    by (simp_all add: geologicalInterpolation_def nearestPoints_def planarDistance_def)
  with top show "\<not> degenerate (envOf random crossingState crossingBounds) (0, 0)"
    "degenerate (envOf random crossingState crossingBounds) (45, 45)"
    by (simp_all add: degenerate_def envOf_def crossingState_def singleHorizon_def initialState_def)
qed

lemma crossing_retained:
  "1 \<le> length (filter (\<lambda>pos. \<not> degenerate (envOf random crossingState crossingBounds) pos)
                  (samplePositions (envOf random crossingState crossingBounds)))"
  "length (filter (\<lambda>pos. \<not> degenerate (envOf random crossingState crossingBounds) pos)
                  (samplePositions (envOf random crossingState crossingBounds))) \<le> 2115"
proof -
  let ?env = "envOf random crossingState crossingBounds"
  let ?keep = "filter (\<lambda>pos. \<not> degenerate ?env pos) (samplePositions ?env)"
  have "(0, 0) \<in> set ?keep"
    using crossing_positions(2) [of random] crossing_degenerate(1) [of random] by simp
  then have "0 < length ?keep"
    by (rule length_pos_if_in_set)
  then show "1 \<le> length ?keep"
    by linarith
  have "length ?keep < length (samplePositions ?env)"
    by (rule length_filter_less [OF crossing_positions(3)]) (simp add: crossing_degenerate(2))
  then show "length ?keep \<le> 2115"
    unfolding crossing_positions(1) by simp
qed

text \<open>
  With the two horizons swapped every position is skipped: the run returns a grid with
  no cell and \<open>pointCount\<close> 0. With a base that crosses the top in one corner, the far
  corner is skipped and the origin is not: of the 2116 positions between 1 and 2115
  contribute their 7 cells.
\<close>

theorem C9_degenerate_positions_skipped_witness:
  "(\<exists>g s'. generateGeologicalGrid (\<lambda>i. 0) 0 swappedState = Some (Inr g, s') \<and>
            points g = [] \<and> pointCount g = 0) \<and>
   (\<exists>g s'. generateGeologicalGrid (\<lambda>i. 0) 0 crossingState = Some (Inr g, s') \<and>
            length (points g) = pointCount g \<and> 7 \<le> pointCount g \<and> pointCount g \<le> 14805)"
proof -
  let ?b = "\<lparr>xMin = 0, xMax = 45, yMin = 0, yMax = 45, zMin = 900, zMax = 1000\<rparr>"
  have two: "2 \<le> length (horizonData swappedState)"
    by (simp add: swappedState_def)
  have wide: "xMin ?b < xMax ?b" "yMin ?b < yMax ?b"
    by simp_all
  have none: "filter (\<lambda>pos. \<not> degenerate (envOf (\<lambda>i. 0) swappedState ?b) pos) ps = []" for ps
    by (simp add: swapped_all_degenerate)
  from C9_degenerate_positions_skipped [OF two swapped_envelope wide, of "\<lambda>i. 0" 0]
  have swapped: "\<exists>g s'. generateGeologicalGrid (\<lambda>i. 0) 0 swappedState = Some (Inr g, s') \<and>
            points g = [] \<and> pointCount g = 0"
    unfolding none by auto
  have two': "2 \<le> length (horizonData crossingState)"
    by (simp add: crossingState_def)
  have wide': "xMin crossingBounds < xMax crossingBounds" "yMin crossingBounds < yMax crossingBounds"
    by (simp_all add: crossingBounds_def)
  have layers: "numLayers crossingState + 2 = 7"
    by (simp add: crossingState_def initialState_def)
  from C9_degenerate_positions_skipped [OF two' crossing_envelope wide', of "\<lambda>i. 0" 0]
  obtain g s' where g: "generateGeologicalGrid (\<lambda>i. 0) 0 crossingState = Some (Inr g, s')"
    "pointCount g = 7 * length (filter (\<lambda>pos. \<not> degenerate (envOf (\<lambda>i. 0) crossingState crossingBounds) pos)
                        (samplePositions (envOf (\<lambda>i. 0) crossingState crossingBounds)))"
    "length (points g) = pointCount g"
    unfolding layers by blast
  from g(2) crossing_retained [of "\<lambda>i. 0"] have "7 \<le> pointCount g" "pointCount g \<le> 14805"
    by simp_all
  with g(1,3) have "\<exists>g s'. generateGeologicalGrid (\<lambda>i. 0) 0 crossingState = Some (Inr g, s') \<and>
            length (points g) = pointCount g \<and> 7 \<le> pointCount g \<and> pointCount g \<le> 14805"
    by blast
  with swapped show ?thesis
    by blast
qed

section \<open>The flat slab\<close>

lemma slab_envelope:
  "envelopeOf (map pointCoords (dpoints (horizonData slabState ! 0) @ dpoints (horizonData slabState ! 1)))
     = Some slabBounds"
  by (simp add: slabState_def slabBounds_def flatHorizon_def envelopeOf_def pointCoords_def
      upt_conv_Cons)

lemma axisFrom_ge: "u \<in> set (axisFrom v hi step) \<Longrightarrow> v \<le> u"
proof (induction v hi step rule: axisFrom.induct)
  case (1 v hi step)
  show ?case
  proof (cases "0 < step \<and> v \<le> hi")
    case True
    with "1.prems" have "u = v \<or> u \<in> set (axisFrom (v + step) hi step)"
      by (subst (asm) axisFrom.simps) simp
    with "1.IH" True show ?thesis
      by auto
  next
    case False
    with "1.prems" show ?thesis
      by (subst (asm) axisFrom.simps) simp
  qed
qed

lemma roundTo_100_ge_20: "20 \<le> v \<Longrightarrow> 20 \<le> roundTo 100 v"
proof -
  assume "20 \<le> v"
  then have "(2000::int) \<le> \<lfloor>v * 100 + 1 / 2\<rfloor>"
    by (simp add: le_floor_iff)
  then have "(2000::real) \<le> of_int \<lfloor>v * 100 + 1 / 2\<rfloor>"
    by linarith
  then show ?thesis
    by (simp add: roundTo_def jsRound_def)
qed

lemma slab_flat:
  "geologicalInterpolation x y (dpoints (flatHorizon n z)) = z"
proof (rule geologicalInterpolation_flat)
  show "dpoints (flatHorizon n z) \<noteq> []"
    by (simp add: flatHorizon_def upt_conv_Cons)
  show "\<forall>p \<in> set (dpoints (flatHorizon n z)). pz p = z"
    by (auto simp add: flatHorizon_def)
qed

lemma slab_positions:
  "\<exists>rest. samplePositions (envOf random slabState slabBounds) = (0, 0) # rest \<and>
          (\<forall>pos \<in> set rest. 20 \<le> fst pos \<or> 20 \<le> snd pos)"
proof -
  let ?tail = "axisFrom 20 900 20"
  have ax: "axisFrom 0 900 20 = 0 # ?tail"
    by (subst axisFrom.simps) simp
  have t: "\<forall>u \<in> set ?tail. 20 \<le> u"
    using axisFrom_ge by blast
  have "samplePositions (envOf random slabState slabBounds) =
          (0, 0) # (map (Pair 0) ?tail @ concat (map (\<lambda>x. map (Pair x) (0 # ?tail)) ?tail))"
    by (simp add: samplePositions_def envOf_def slabBounds_def ax)
  moreover have "\<forall>pos \<in> set (map (Pair 0) ?tail @ concat (map (\<lambda>x. map (Pair x) (0 # ?tail)) ?tail)).
                   20 \<le> fst pos \<or> 20 \<le> snd pos"
    using t by auto
  ultimately show ?thesis
    by blast
qed

lemma slab_origin_column:
  "map (\<lambda>c. (cx c, cy c, cz c, layer c, structuralDip c))
     (grid_acc (columnStep (envOf random slabState slabBounds) 0 0
        \<lparr>grid_acc = [], totalVolume_acc = 0, pointCount_acc = 0, draws = 0\<rparr>))
   = [(0, 0, 900, 0, 0), (0, 0, 925, 1, 0), (0, 0, 950, 2, 0), (0, 0, 975, 3, 0), (0, 0, 1000, 4, 0)]"
proof -
  have top: "geologicalInterpolation 0 0 (e_topHorizon (envOf random slabState slabBounds)) = 1000"
    and bot: "geologicalInterpolation 0 0 (e_bottomHorizon (envOf random slabState slabBounds)) = 900"
    by (simp_all add: envOf_def slabState_def slab_flat)
  have idx: "[0 ..< e_numLayers (envOf random slabState slabBounds) + 2] = [0, 1, 2, 3, 4]"
    by (simp add: envOf_def slabState_def upt_conv_Cons)
  have nofault: "e_faultData (envOf random slabState slabBounds) = []"
    and nl: "e_numLayers (envOf random slabState slabBounds) = 3"
    by (simp_all add: envOf_def slabState_def initialState_def)
  show ?thesis
    unfolding columnStep_def top bot idx Let_def
    by (simp add: layerStep_def nofault nl calculateAdvancedFaultInfluence_def faultScan_def
        roundTo_def jsRound_def Let_def)
qed

text \<open>
  Claim C4. For the flat slab (top flat at 1000 and base flat at 900 on the 10 by 10 grid
  of spacing 100, no fault, three layers) the run returns a grid whose cells at position
  \<open>(0, 0)\<close> are exactly five, of layers 0 to 4, with the rounded elevations 900, 925, 950,
  975 and 1000 and a structural dip of 0, whatever the random draws are.
\<close>

theorem C4_flat_slab_origin_column:
  "\<exists>g s'. generateGeologicalGrid random now slabState = Some (Inr g, s') \<and>
     map (\<lambda>c. (cx c, cy c, cz c, layer c, structuralDip c))
       (filter (\<lambda>c. cx c = 0 \<and> cy c = 0) (points g))
     = [(0, 0, 900, 0, 0), (0, 0, 925, 1, 0), (0, 0, 950, 2, 0), (0, 0, 975, 3, 0),
        (0, 0, 1000, 4, 0)]"
proof -
  let ?env = "envOf random slabState slabBounds"
  let ?init = "\<lparr>grid_acc = [], totalVolume_acc = 0, pointCount_acc = 0, draws = 0\<rparr>"
  let ?col = "\<lambda>pos. columnStep ?env (fst pos) (snd pos)"
  let ?P = "\<lambda>c. cx c = 0 \<and> cy c = 0"
  let ?f = "\<lambda>c. (cx c, cy c, cz c, layer c, structuralDip c)"
  have two: "2 \<le> length (horizonData slabState)"
    by (simp add: slabState_def)
  have wide: "xMin slabBounds < xMax slabBounds" "yMin slabBounds < yMax slabBounds"
    by (simp_all add: slabBounds_def)
  from generate_returns [OF two slab_envelope wide, of random now]
  obtain g s' where g: "generateGeologicalGrid random now slabState = Some (Inr g, s')"
    "points g = grid_acc (fold ?col (samplePositions ?env) ?init)"
    by blast
  from slab_positions [of random]
  obtain rest where rest: "samplePositions ?env = (0, 0) # rest"
    "\<forall>pos \<in> set rest. 20 \<le> fst pos \<or> 20 \<le> snd pos"
    by blast
  let ?st1 = "columnStep ?env 0 0 ?init"
  from fold_columnStep_cells [of ?env rest ?st1]
  obtain cs where cs: "grid_acc (fold ?col rest ?st1) = grid_acc ?st1 @ cs"
    "\<forall>c \<in> set cs. \<exists>pos \<in> set rest. cx c = roundTo 100 (fst pos) \<and> cy c = roundTo 100 (snd pos)"
    by blast
  have away: "\<not> ?P c" if "c \<in> set cs" for c
  proof -
    from cs(2) that obtain pos where pos: "pos \<in> set rest"
      "cx c = roundTo 100 (fst pos)" "cy c = roundTo 100 (snd pos)"
      by blast
    from rest(2) pos(1) have "20 \<le> fst pos \<or> 20 \<le> snd pos"
      by blast
    then have "20 \<le> cx c \<or> 20 \<le> cy c"
      unfolding pos(2,3) using roundTo_100_ge_20 by blast
    then show ?thesis
      by auto
  qed
  then have far: "filter ?P cs = []"
    by (simp add: filter_empty_conv)
  have origin: "map ?f (grid_acc ?st1)
      = [(0, 0, 900, 0, 0), (0, 0, 925, 1, 0), (0, 0, 950, 2, 0), (0, 0, 975, 3, 0),
         (0, 0, 1000, 4, 0)]"
    by (rule slab_origin_column)
  have "\<forall>c \<in> set (grid_acc ?st1). ?P c"
  proof
    fix c
    assume "c \<in> set (grid_acc ?st1)"
    then have "?f c \<in> set (map ?f (grid_acc ?st1))"
      by simp
    then show "?P c"
      unfolding origin by auto
  qed
  then have near: "filter ?P (grid_acc ?st1) = grid_acc ?st1"
    by (simp add: filter_id_conv)
  have "points g = grid_acc ?st1 @ cs"
    unfolding g(2) rest(1) using cs(1) by simp
  then have "filter ?P (points g) = grid_acc ?st1"
    by (simp add: near far)
  with origin g(1) show ?thesis
    by auto
qed

section \<open>The merge loop\<close>

lemma mergeLoop_acc:
  "mergedVolume (mergeLoop dir bs i gs acc) = mergedVolume acc + sum_list (map totalVolume gs)"
  "totalPointCount (mergeLoop dir bs i gs acc) = totalPointCount acc + sum_list (map pointCount gs)"
  "combinedPoints (mergeLoop dir bs i gs acc) =
     combinedPoints acc @
     concat (map (\<lambda>j. map (blendedPoint (i + j) (calculateOffset dir (i + j) (bounds (gs ! j)) bs) (gs ! j))
                          (points (gs ! j))) [0 ..< length gs])"
proof (induction gs arbitrary: i acc)
  case Nil
  {
    case 1 show ?case by simp
  next
    case 2 show ?case by simp
  next
    case 3 show ?case by simp
  }
next
  case (Cons g gs)
  {
    case 1 show ?case by (simp add: Cons.IH(1) Let_def)
  next
    case 2 show ?case by (simp add: Cons.IH(2) Let_def)
  next
    case 3
    have shift: "map (\<lambda>j. map (blendedPoint (i + j) (calculateOffset dir (i + j) (bounds ((g # gs) ! j)) bs)
                               ((g # gs) ! j)) (points ((g # gs) ! j))) [0 ..< length (g # gs)]
        = map (blendedPoint i (calculateOffset dir i (bounds g) bs) g) (points g) #
          map (\<lambda>j. map (blendedPoint (Suc i + j) (calculateOffset dir (Suc i + j) (bounds (gs ! j)) bs)
                               (gs ! j)) (points (gs ! j))) [0 ..< length gs]"
      by (simp add: map_upt_Suc del: upt_Suc)
    show ?case
      unfolding shift by (simp add: Cons.IH(3) Let_def)
  }
qed

lemma horizontal_offset:
  "calculateOffset Horizontal i b (map bounds gs) = (widthsBefore gs i, 0, 0)"
proof -
  have f: "fold (\<lambda>prevBounds xOffset. xOffset + (xMax prevBounds - xMin prevBounds)) bs a
          = a + sum_list (map (\<lambda>b. xMax b - xMin b) bs)" for bs and a :: real
    by (induction bs arbitrary: a) simp_all
  show ?thesis
    by (simp add: calculateOffset_def widthsBefore_def take_map [symmetric] f comp_def)
qed

lemma vertical_offset:
  "calculateOffset Vertical i b bs = (0, 0, real i * 50)"
  by (simp add: calculateOffset_def)

lemma those_length: "those xs = Some ys \<Longrightarrow> length ys = length xs"
  by (induction xs arbitrary: ys) (auto split: option.splits)

lemma combine_result:
  assumes sel: "those (map (findGrid (grids s)) (selectedGrids s)) = Some gs"
    and ok: "canCombineGrids (grids s) (selectedGrids s) = Inr c" "canCombine c"
    and cells: "cells = concat (map (\<lambda>i. map (blendedPoint i
                    (calculateOffset (mergeDirection s) i (bounds (gs ! i)) (map bounds gs)) (gs ! i))
                    (points (gs ! i))) [0 ..< length gs])"
    and srt: "srt = (if mergeDirection s = Vertical then sort_key cz cells else sort_key cx cells)"
  shows "(envelopeOf (map cellCoords srt) = None \<and> combineGrids now s = (Inl NonFinite, s)) \<or>
         (\<exists>m. combineGrids now s =
                 (Inr m, s\<lparr>grids := grids s @ [m], activeGridId := Some (gid m),
                             selectedGrids := []\<rparr>) \<and>
              points m = srt \<and>
              totalVolume m = sum_list (map totalVolume gs) \<and>
              pointCount m = sum_list (map pointCount gs) \<and>
              envelopeOf (map cellCoords srt) = Some (bounds m))"
proof -
  have len: "\<not> length (selectedGrids s) < 2"
    using ok by (auto simp add: canCombineGrids_def split: if_splits)
  from those_length [OF sel] len obtain g0 rest where gs: "gs = g0 # rest"
    by (cases gs) auto
  let ?acc = "mergeLoop (mergeDirection s) (map bounds gs) 0 gs
                \<lparr>combinedPoints = [], mergedVolume = 0, totalPointCount = 0\<rparr>"
  have acc: "combinedPoints ?acc = cells" "mergedVolume ?acc = sum_list (map totalVolume gs)"
    "totalPointCount ?acc = sum_list (map pointCount gs)"
    unfolding cells by (simp_all add: mergeLoop_acc)
  have srt': "(if mergeDirection s = Vertical then sort_key cz (combinedPoints ?acc)
               else sort_key cx (combinedPoints ?acc)) = srt"
    unfolding acc srt ..
  show ?thesis
  proof (cases "envelopeOf (map cellCoords srt)")
    case None
    have "combineGrids now s = (Inl NonFinite, s)"
      unfolding combineGrids_def Let_def
      apply (simp only: ok sel sum.case option.case gs list.case if_False not_True_eq_False simp_thms)
      apply (simp only: gs [symmetric] srt' None option.case)
      done
    with None show ?thesis
      by blast
  next
    case (Some b)
    define m where "m =
      \<lparr>gid = showNat now,
       gname = (if mergeDirection s = Vertical then ''V'' else ''H'') @ ''-Merged_'' @
                 joinWith ''+'' (map (shortName \<circ> gname) gs),
       points = srt,
       totalVolume = mergedVolume ?acc,
       layerCount = fold max (map layerCount rest) (layerCount g0) * length gs,
       pointCount = totalPointCount ?acc,
       bounds = b,
       timestamp = now,
       origin = Combined (map gname gs) (mergeDirection s) (mergeStatsOf srt)\<rparr>"
    have "combineGrids now s =
            (Inr m, s\<lparr>grids := grids s @ [m], activeGridId := Some (gid m), selectedGrids := []\<rparr>)"
      unfolding combineGrids_def Let_def
      apply (simp only: ok sel sum.case option.case gs list.case if_False not_True_eq_False simp_thms)
      apply (simp only: gs [symmetric] srt' Some option.case m_def)
      done
    moreover have "points m = srt" "totalVolume m = sum_list (map totalVolume gs)"
      "pointCount m = sum_list (map pointCount gs)" "bounds m = b"
      by (simp_all add: m_def acc)
    ultimately show ?thesis
      using Some by auto
  qed
qed

section \<open>A merge that returns\<close>

text \<open>
  When the selection is compatible and holds at least one cell, \<open>combineGrids\<close> registers
  a merged grid. (With no cell at all the envelope of the merged cells is not finite.)
\<close>

lemma envelopeOf_None: "envelopeOf ps = None \<longleftrightarrow> ps = []"
  by (cases ps) (simp_all add: envelopeOf_def)

lemma moved_cells_nonempty:
  assumes "\<exists>g \<in> set gs. points g \<noteq> []"
  shows "concat (map (\<lambda>i. map (f i) (points (gs ! i))) [0 ..< length gs]) \<noteq> []"
proof -
  from assms obtain i where "i < length gs" "points (gs ! i) \<noteq> []"
    by (auto simp add: in_set_conv_nth)
  then show ?thesis
    by auto
qed

lemma sort_key_Nil_iff: "sort_key f xs = [] \<longleftrightarrow> xs = []"
  by (metis length_0_conv length_sort)

lemma combine_returns:
  assumes sel: "those (map (findGrid (grids s)) (selectedGrids s)) = Some gs"
    and ok: "canCombineGrids (grids s) (selectedGrids s) = Inr c" "canCombine c"
    and some: "\<exists>g \<in> set gs. points g \<noteq> []"
  shows "\<exists>m s'. combineGrids now s = (Inr m, s') \<and>
           points m = (if mergeDirection s = Vertical then sort_key cz else sort_key cx)
             (concat (map (\<lambda>i. map (blendedPoint i
                    (calculateOffset (mergeDirection s) i (bounds (gs ! i)) (map bounds gs)) (gs ! i))
                    (points (gs ! i))) [0 ..< length gs])) \<and>
           totalVolume m = sum_list (map totalVolume gs) \<and>
           pointCount m = sum_list (map pointCount gs) \<and>
           envelopeOf (map cellCoords (points m)) = Some (bounds m)"
proof -
  let ?cells = "concat (map (\<lambda>i. map (blendedPoint i
                    (calculateOffset (mergeDirection s) i (bounds (gs ! i)) (map bounds gs)) (gs ! i))
                    (points (gs ! i))) [0 ..< length gs])"
  let ?srt = "if mergeDirection s = Vertical then sort_key cz ?cells else sort_key cx ?cells"
  have "?cells \<noteq> []"
    by (rule moved_cells_nonempty [OF some])
  then have "envelopeOf (map cellCoords ?srt) \<noteq> None"
    by (simp add: envelopeOf_None sort_key_Nil_iff)
  with combine_result [OF sel ok refl refl, of now]
  obtain m where m: "combineGrids now s =
                 (Inr m, s\<lparr>grids := grids s @ [m], activeGridId := Some (gid m),
                             selectedGrids := []\<rparr>)"
     "points m = ?srt" "totalVolume m = sum_list (map totalVolume gs)"
     "pointCount m = sum_list (map pointCount gs)"
     "envelopeOf (map cellCoords ?srt) = Some (bounds m)"
    by blast
  have "points m = (if mergeDirection s = Vertical then sort_key cz else sort_key cx) ?cells"
    unfolding m(2) by simp
  with m show ?thesis
    by auto
qed

text \<open>The two example grids are compatible.\<close>

lemma pair_selected:
  "those (map (findGrid (grids (pairState dir))) (selectedGrids (pairState dir))) = Some [gridA, gridB]"
  by (simp add: pairState_def initialState_def findGrid_def gridA_def gridB_def)

lemma pair_compatible:
  "canCombineGrids (grids (pairState dir)) (selectedGrids (pairState dir)) =
     Inr \<lparr>canCombine = True, reason = ''Compatible grids'', details = [],
          compatibilityScore = Some 100\<rparr>"
  by (simp add: pairState_def initialState_def canCombineGrids_def findGrid_def gridA_def gridB_def
      checkSelected_def boundsMismatch_def pointVariance_def varianceTooHigh_def varianceOk_def
      Let_def)

section \<open>Volume and point count of a merge\<close>

text \<open>
  Claim C2. For every compatible selection of grids that holds a cell, and for either
  merge direction of the state, the merged grid's \<open>totalVolume\<close> is the sum of the
  selected grids' \<open>totalVolume\<close> and its \<open>pointCount\<close> the sum of their \<open>pointCount\<close>.
\<close>

theorem C2_merge_sums:
  assumes "those (map (findGrid (grids s)) (selectedGrids s)) = Some gs"
    and "canCombineGrids (grids s) (selectedGrids s) = Inr c" "canCombine c"
    and "\<exists>g \<in> set gs. points g \<noteq> []"
  shows "\<exists>m s'. combineGrids now s = (Inr m, s') \<and>
           totalVolume m = sum_list (map totalVolume gs) \<and>
           pointCount m = sum_list (map pointCount gs)"
  using combine_returns [OF assms, of now] by blast

theorem C2_merge_sums_witness:
  "(\<exists>m s'. combineGrids 3 (pairState Vertical) = (Inr m, s') \<and>
            totalVolume m = 500 \<and> pointCount m = 4) \<and>
   (\<exists>m s'. combineGrids 3 (pairState Horizontal) = (Inr m, s') \<and>
            totalVolume m = 500 \<and> pointCount m = 4)"
proof -
  have cells: "\<exists>g \<in> set [gridA, gridB]. points g \<noteq> []"
    by (simp add: gridA_def)
  have sums: "sum_list (map totalVolume [gridA, gridB]) = 500"
    "sum_list (map pointCount [gridA, gridB]) = 4"
    by (simp_all add: gridA_def gridB_def)
  have ok: "canCombine \<lparr>canCombine = True, reason = ''Compatible grids'', details = [],
          compatibilityScore = Some 100\<rparr>"
    by simp
  from C2_merge_sums [where now = 3, OF pair_selected [of Vertical] pair_compatible ok cells]
       C2_merge_sums [where now = 3, OF pair_selected [of Horizontal] pair_compatible ok cells]
  show ?thesis
    unfolding sums by blast
qed

section \<open>Horizontal merges\<close>

lemma blendedPoint_coords:
  "cx (blendedPoint i (dx, dy, dz) g c) = cx c + dx"
  "cy (blendedPoint i (dx, dy, dz) g c) = cy c + dy"
  "cz (blendedPoint i (dx, dy, dz) g c) = cz c + dz"
  "map_option gridIndex (blend (blendedPoint i off g c)) = Some i"
  by (simp_all add: blendedPoint_def)

lemma filter_concat_by_index:
  assumes tag: "\<And>j p. P (f j p) \<longleftrightarrow> j = i" and "i < n"
  shows "filter P (concat (map (\<lambda>j. map (f j) (pts j)) [0 ..< n])) = map (f i) (pts i)"
  using assms(2)
proof (induction n)
  case 0
  then show ?case by simp
next
  case (Suc n)
  have one: "filter P (map (f j) (pts j)) = (if j = i then map (f j) (pts j) else [])" for j
    by (simp add: filter_map comp_def tag)
  show ?case
  proof (cases "i < n")
    case True
    with Suc.IH show ?thesis
      by (simp add: one)
  next
    case False
    with Suc.prems have "i = n"
      by simp
    moreover have "filter P (concat (map (\<lambda>j. map (f j) (pts j)) [0 ..< n])) = []"
      unfolding \<open>i = n\<close> [symmetric] by (auto simp add: filter_empty_conv tag False)
    ultimately show ?thesis
      by (simp add: one)
  qed
qed

lemma filter_moved_cells:
  assumes "i < n"
  shows "filter (\<lambda>c. map_option gridIndex (blend c) = Some i)
           (concat (map (\<lambda>j. map (blendedPoint j (off j) (g j)) (pts j)) [0 ..< n]))
         = map (blendedPoint i (off i) (g i)) (pts i)"
proof (rule filter_concat_by_index [where f = "\<lambda>j. blendedPoint j (off j) (g j)", OF _ assms])
  fix j p
  show "(map_option gridIndex (blend (blendedPoint j (off j) (g j) p)) = Some i) = (j = i)"
    by (simp add: blendedPoint_def)
qed

text \<open>
  What a horizontal merge of a compatible selection does: the merged cells are the cells
  of the selected grids, each moved in \<open>x\<close> by the sum of the widths \<open>xMax - xMin\<close> of
  the grids before its own, with \<open>y\<close> and \<open>z\<close> unchanged, and sorted by \<open>x\<close>. The
  least \<open>x\<close> among the cells of grid \<open>i\<close> after the merge is their least \<open>x\<close> before
  it plus that sum; where the grid itself begins plays no part.
\<close>

lemma horizontal_merge_cells:
  assumes "mergeDirection s = Horizontal"
    and "those (map (findGrid (grids s)) (selectedGrids s)) = Some gs"
    and "canCombineGrids (grids s) (selectedGrids s) = Inr c" "canCombine c"
    and "\<exists>g \<in> set gs. points g \<noteq> []"
  shows "\<exists>m s'. combineGrids now s = (Inr m, s') \<and>
     points m = sort_key cx (concat (map (\<lambda>i. map (blendedPoint i (widthsBefore gs i, 0, 0) (gs ! i))
                                              (points (gs ! i))) [0 ..< length gs])) \<and>
     (\<forall>i < length gs. cellsOfIndex i m =
         sort_key cx (map (blendedPoint i (widthsBefore gs i, 0, 0) (gs ! i)) (points (gs ! i)))) \<and>
     (\<forall>i p. cx (blendedPoint i (widthsBefore gs i, 0, 0) (gs ! i) p) = cx p + widthsBefore gs i \<and>
            cy (blendedPoint i (widthsBefore gs i, 0, 0) (gs ! i) p) = cy p \<and>
            cz (blendedPoint i (widthsBefore gs i, 0, 0) (gs ! i) p) = cz p) \<and>
     (\<forall>i < length gs. points (gs ! i) \<noteq> [] \<longrightarrow>
         Min (cx ` set (cellsOfIndex i m)) = Min (cx ` set (points (gs ! i))) + widthsBefore gs i)"
proof -
  let ?mv = "\<lambda>i. blendedPoint i (widthsBefore gs i, 0, 0) (gs ! i)"
  from combine_returns [OF assms(2-5), of now]
  obtain m s' where m: "combineGrids now s = (Inr m, s')"
    "points m = sort_key cx (concat (map (\<lambda>i. map (?mv i) (points (gs ! i))) [0 ..< length gs]))"
    unfolding assms(1) horizontal_offset by auto
  have idx: "cellsOfIndex i m = sort_key cx (map (?mv i) (points (gs ! i)))" if "i < length gs" for i
    unfolding cellsOfIndex_def m(2) filter_sort
    by (simp only: filter_moved_cells [OF that])
  have coords: "cx (?mv i p) = cx p + widthsBefore gs i \<and> cy (?mv i p) = cy p \<and> cz (?mv i p) = cz p"
    for i p
    by (simp add: blendedPoint_coords)
  have least: "Min (cx ` set (cellsOfIndex i m)) = Min (cx ` set (points (gs ! i))) + widthsBefore gs i"
    if "i < length gs" "points (gs ! i) \<noteq> []" for i
  proof -
    have "cx ` set (cellsOfIndex i m) = (\<lambda>p. cx p + widthsBefore gs i) ` set (points (gs ! i))"
      unfolding idx [OF that(1)] by (simp add: image_image coords)
    moreover have "Min ((\<lambda>p. cx p + widthsBefore gs i) ` set (points (gs ! i)))
                     = Min (cx ` set (points (gs ! i))) + widthsBefore gs i"
      by (rule Min_add_commute) (simp_all add: that(2))
    ultimately show ?thesis
      by simp
  qed
  from m idx coords least show ?thesis
    by blast
qed

text \<open>
  Claim C5. The claim, like the comments of \<open>calculateOffset\<close> ("place next grid exactly
  at the end of previous", "No separation - seamless join"), puts the least \<open>x\<close> of the
  second grid at 1000 when the first spans \<open>x\<close> from 0 to 1000. The code does not: grid A
  spans 0 to 1000 and grid B 50 to 1050, each with cells at both ends; after the merge
  the cells of A lie at 0 and 1000 and those of B at 1050 and 2050, a gap of 50.
\<close>

theorem C5_gap_after_horizontal_merge:
  "\<exists>m s'. combineGrids 3 (pairState Horizontal) = (Inr m, s') \<and>
     xMin (bounds gridA) = 0 \<and> xMax (bounds gridA) = 1000 \<and>
     map cx (cellsOfIndex 0 m) = [0, 1000] \<and>
     map cx (cellsOfIndex 1 m) = [1050, 2050]"
  by (simp add: combineGrids_def pairState_def initialState_def gridA_def gridB_def cellAt_def
      canCombineGrids_def findGrid_def checkSelected_def boundsMismatch_def pointVariance_def
      varianceTooHigh_def varianceOk_def calculateOffset_def blendedPoint_def envelopeOf_def
      cellCoords_def mergeStatsOf_def shortName_def cellsOfIndex_def Let_def)

section \<open>The bounds of a grid\<close>

lemma generate_bounds:
  assumes "generateGeologicalGrid random now s = Some (Inr g, s')"
  shows "envelopeOf (map pointCoords (dpoints (horizonData s ! 0) @ dpoints (horizonData s ! 1)))
           = Some (bounds g)"
proof (cases "length (horizonData s) < 2")
  case True
  have "generateGeologicalGrid random now s = Some (Inl (Alerted NeedTwoHorizons), s)"
    unfolding generateGeologicalGrid_def by (simp only: True if_True)
  with assms show ?thesis
    by simp
next
  case False
  show ?thesis
  proof (cases "envelopeOf (map pointCoords (dpoints (horizonData s ! 0) @ dpoints (horizonData s ! 1)))")
    case None
    have "generateGeologicalGrid random now s = Some (Inl NonFinite, s\<lparr>isGenerating := False\<rparr>)"
      unfolding generateGeologicalGrid_def Let_def by (simp only: False if_False None option.case)
    with assms show ?thesis
      by simp
  next
    case (Some b)
    define mk :: "gen_state \<Rightarrow> grid" where "mk = (\<lambda>st.
       \<lparr>gid = showNat now,
        gname = ''Grid_'' @ showNat (length (grids s) + 1),
        points = grid_acc st,
        totalVolume = jsRound (totalVolume_acc st),
        layerCount = numLayers s + 2,
        pointCount = pointCount_acc st,
        bounds = b,
        timestamp = now,
        origin = Generated (joinWith '', '' (map dname (horizonData s)))
                           (joinWith '', '' (map dname (faultData s)))\<rparr>)"
    have eq: "generateGeologicalGrid random now s =
            Option.bind (xLoop (envOf random s b) (xMin b)
                           \<lparr>grid_acc = [], totalVolume_acc = 0, pointCount_acc = 0, draws = 0\<rparr>)
              (\<lambda>st. Some (Inr (mk st),
                          s\<lparr>grids := grids s @ [mk st], activeGridId := Some (gid (mk st)),
                            isGenerating := False\<rparr>))"
      unfolding generateGeologicalGrid_def Let_def envOf_def mk_def
      by (simp only: False if_False Some option.case)
    from assms [unfolded eq bind_eq_Some_conv]
    obtain st where "Some (Inr (mk st),
                          s\<lparr>grids := grids s @ [mk st], activeGridId := Some (gid (mk st)),
                            isGenerating := False\<rparr>) = Some (Inr g, s')"
      by blast
    then have g: "mk st = g"
      by (simp only: option.inject prod.inject sum.inject)
    have "bounds (mk st) = b"
      by (simp add: mk_def)
    then have "bounds g = b"
      unfolding g .
    with Some show ?thesis
      by (simp only:)
  qed
qed

lemma combine_bounds:
  assumes "combineGrids now s = (Inr m, s')"
  shows "envelopeOf (map cellCoords (points m)) = Some (bounds m)"
proof -
  from assms obtain c where c: "canCombineGrids (grids s) (selectedGrids s) = Inr c"
    unfolding combineGrids_def Let_def by (cases "canCombineGrids (grids s) (selectedGrids s)") auto
  with assms have ok: "canCombine c"
    unfolding combineGrids_def Let_def by (auto split: if_splits)
  from assms c ok obtain gs where gs: "those (map (findGrid (grids s)) (selectedGrids s)) = Some gs"
    unfolding combineGrids_def Let_def
    by (cases "those (map (findGrid (grids s)) (selectedGrids s))") auto
  from combine_result [OF gs c ok refl refl, of now] assms show ?thesis
    by auto
qed

text \<open>Facts about the sampling positions of the skewed pair of horizons.\<close>

lemma axisFrom_form:
  "u \<in> set (axisFrom v hi step) \<Longrightarrow> \<exists>k::nat. u = v + real k * step"
proof (induction v hi step rule: axisFrom.induct)
  case (1 v hi step)
  show ?case
  proof (cases "0 < step \<and> v \<le> hi")
    case True
    with "1.prems" have "u = v \<or> u \<in> set (axisFrom (v + step) hi step)"
      by (subst (asm) axisFrom.simps) simp
    then show ?thesis
    proof
      assume "u = v"
      then have "u = v + real 0 * step"
        by simp
      then show ?thesis
        by blast
    next
      assume "u \<in> set (axisFrom (v + step) hi step)"
      with "1.IH" True obtain k :: nat where "u = v + step + real k * step"
        by blast
      then have "u = v + real (Suc k) * step"
        by (simp add: algebra_simps)
      then show ?thesis
        by blast
    qed
  next
    case False
    with "1.prems" show ?thesis
      by (subst (asm) axisFrom.simps) simp
  qed
qed

lemma axisFrom_le: "u \<in> set (axisFrom v hi step) \<Longrightarrow> u \<le> hi"
proof (induction v hi step rule: axisFrom.induct)
  case (1 v hi step)
  show ?case
  proof (cases "0 < step \<and> v \<le> hi")
    case True
    with "1.prems" have "u = v \<or> u \<in> set (axisFrom (v + step) hi step)"
      by (subst (asm) axisFrom.simps) simp
    with "1.IH" True show ?thesis
      by auto
  next
    case False
    with "1.prems" show ?thesis
      by (subst (asm) axisFrom.simps) simp
  qed
qed

lemma roundTo_100_nat: "roundTo 100 (real k) = real k"
proof -
  have "\<lfloor>real k * 100 + 1 / 2\<rfloor> = int k * 100"
    by (rule floor_unique) simp_all
  then show ?thesis
    by (simp add: roundTo_def jsRound_def)
qed

lemma fold_max_le:
  fixes M :: real
  shows "a \<le> M \<Longrightarrow> \<forall>v \<in> set vs. v \<le> M \<Longrightarrow> fold max vs a \<le> M"
  by (induction vs arbitrary: a) simp_all

lemma skew_envelope:
  "envelopeOf (map pointCoords (dpoints (horizonData skewState ! 0) @ dpoints (horizonData skewState ! 1)))
     = Some skewBounds"
  by (simp add: skewState_def skewBounds_def singleHorizon_def envelopeOf_def pointCoords_def)

lemma skew_positions:
  assumes "pos \<in> set (samplePositions (envOf random skewState skewBounds))"
  shows "roundTo 100 (fst pos) \<le> 45"
proof -
  from assms have "fst pos \<in> set (axisFrom 0 (91 / 2) 1)"
    by (auto simp add: samplePositions_def envOf_def skewBounds_def)
  from axisFrom_form [OF this] axisFrom_le [OF this]
  obtain k :: nat where k: "fst pos = real k" "real k \<le> 91 / 2"
    by auto
  from k(2) have "k \<le> 45"
    by linarith
  then show ?thesis
    unfolding k(1) roundTo_100_nat by simp
qed

text \<open>
  Claim C1, as amended. The bounds of a merged grid are the envelope of its own cells. The
  bounds of a generated grid are the envelope of the points of its two horizons, from
  which the sampling positions are laid out; they are not computed from the cells.
\<close>

theorem C1_bounds_of_built_and_merged_grids:
  "(generateGeologicalGrid random now s = Some (Inr g, s') \<longrightarrow>
      envelopeOf (map pointCoords (dpoints (horizonData s ! 0) @ dpoints (horizonData s ! 1)))
        = Some (bounds g)) \<and>
   (combineGrids now' t = (Inr m, t') \<longrightarrow>
      envelopeOf (map cellCoords (points m)) = Some (bounds m))"
  using generate_bounds combine_bounds by blast

theorem C1_bounds_of_built_and_merged_grids_witness:
  "(\<exists>g s'. generateGeologicalGrid (\<lambda>i. 0) 0 skewState = Some (Inr g, s') \<and>
      envelopeOf (map pointCoords (dpoints (horizonData skewState ! 0)
                                   @ dpoints (horizonData skewState ! 1))) = Some (bounds g) \<and>
      bounds g = skewBounds) \<and>
   (\<exists>m t'. combineGrids 3 (pairState Vertical) = (Inr m, t') \<and>
      envelopeOf (map cellCoords (points m)) = Some (bounds m))"
proof -
  have two: "2 \<le> length (horizonData skewState)"
    by (simp add: skewState_def)
  have wide: "xMin skewBounds < xMax skewBounds" "yMin skewBounds < yMax skewBounds"
    by (simp_all add: skewBounds_def)
  from generate_returns [OF two skew_envelope wide, of "\<lambda>i. 0" 0]
  obtain g s' where g: "generateGeologicalGrid (\<lambda>i. 0) 0 skewState = Some (Inr g, s')"
    by blast
  have cells: "\<exists>g \<in> set [gridA, gridB]. points g \<noteq> []"
    by (simp add: gridA_def)
  have ok: "canCombine \<lparr>canCombine = True, reason = ''Compatible grids'', details = [],
          compatibilityScore = Some 100\<rparr>"
    by simp
  from combine_returns [where now = 3, OF pair_selected [of Vertical] pair_compatible ok cells]
  obtain m t' where m: "combineGrids 3 (pairState Vertical) = (Inr m, t')"
    by blast
  from C1_bounds_of_built_and_merged_grids [of "\<lambda>i. 0" 0 skewState g s' 3 "pairState Vertical" m t']
    g m
  have "envelopeOf (map pointCoords (dpoints (horizonData skewState ! 0)
                                   @ dpoints (horizonData skewState ! 1))) = Some (bounds g)"
    "envelopeOf (map cellCoords (points m)) = Some (bounds m)"
    by blast+
  moreover from this(1) have "bounds g = skewBounds"
    unfolding skew_envelope by simp
  ultimately show ?thesis
    using g m by blast
qed

text \<open>
  A generated grid whose bounds are not the envelope of its cells. The horizons span
  \<open>x\<close> from 0 to 45.5 and \<open>y\<close> from 0 to 45, so the spacing is 1 and the positions
  have \<open>x = 0, 1, ..., 45\<close>: no cell lies beyond \<open>x = 45\<close>, while \<open>xMax\<close> of the bounds
  is 45.5.
\<close>

theorem C1_counterexample:
  "\<exists>g s'. generateGeologicalGrid (\<lambda>i. 0) 0 skewState = Some (Inr g, s') \<and>
     xMax (bounds g) = 91 / 2 \<and>
     envelopeOf (map cellCoords (points g)) \<noteq> Some (bounds g)"
proof -
  let ?env = "envOf (\<lambda>i. 0) skewState skewBounds"
  let ?init = "\<lparr>grid_acc = [], totalVolume_acc = 0, pointCount_acc = 0, draws = 0\<rparr>"
  have two: "2 \<le> length (horizonData skewState)"
    by (simp add: skewState_def)
  have wide: "xMin skewBounds < xMax skewBounds" "yMin skewBounds < yMax skewBounds"
    by (simp_all add: skewBounds_def)
  from generate_returns [OF two skew_envelope wide, of "\<lambda>i. 0" 0]
  obtain g s' where g: "generateGeologicalGrid (\<lambda>i. 0) 0 skewState = Some (Inr g, s')"
    "points g = grid_acc (fold (\<lambda>pos. columnStep ?env (fst pos) (snd pos)) (samplePositions ?env) ?init)"
    "bounds g = skewBounds"
    by blast
  from fold_columnStep_cells [of ?env "samplePositions ?env" ?init]
  have "\<forall>c \<in> set (points g). \<exists>pos \<in> set (samplePositions ?env). cx c = roundTo 100 (fst pos)"
    unfolding g(2) by auto
  then have le: "\<forall>c \<in> set (points g). cx c \<le> 45"
    using skew_positions by fastforce
  have far: "xMax (bounds g) = 91 / 2"
    by (simp add: g(3) skewBounds_def)
  have "envelopeOf (map cellCoords (points g)) \<noteq> Some (bounds g)"
  proof (cases "points g")
    case Nil
    then show ?thesis
      by (simp add: envelopeOf_def)
  next
    case (Cons c cs)
    have "fold max (map fst (map cellCoords cs)) (fst (cellCoords c)) \<le> 45"
      by (rule fold_max_le) (use le Cons in \<open>auto simp add: cellCoords_def\<close>)
    then have neq: "fold max (map fst (map cellCoords cs)) (fst (cellCoords c)) \<noteq> xMax (bounds g)"
      unfolding far by simp
    show ?thesis
    proof
      assume "envelopeOf (map cellCoords (points g)) = Some (bounds g)"
      then have "map_option xMax (envelopeOf (map cellCoords (points g))) = Some (xMax (bounds g))"
        by simp
      with neq show False
        by (simp add: Cons envelopeOf_def)
    qed
  qed
  with g(1) far show ?thesis
    by blast
qed

section \<open>The compatibility score\<close>

lemma canCombineGrids_resolved:
  assumes "2 \<le> length gridIds" "those (map (findGrid gs) gridIds) = Some sel"
  shows "\<exists>first others. sel = first # others \<and>
           canCombineGrids gs gridIds = Inr (checkSelected first others)"
proof -
  from those_length [OF assms(2)] assms(1) obtain first others where "sel = first # others"
    by (cases sel) auto
  with assms show ?thesis
    by (simp add: canCombineGrids_def)
qed

lemma checkSelected_score:
  "compatibilityScore (checkSelected first others)
     = Some (100 - 20 * int (length (details (checkSelected first others))))"
  by (simp add: checkSelected_def Let_def)

text \<open>
  Claim C7. For a list of two or more ids of grids of the state the check returns the
  score \<open>100 - 20 * n\<close>, where \<open>n\<close> is the number of entries of \<open>details\<close>; the score is
  not clamped: with six or more entries it is negative.
\<close>

theorem C7_score_formula:
  assumes "2 \<le> length gridIds" "those (map (findGrid gs) gridIds) = Some sel"
  shows "\<exists>c. canCombineGrids gs gridIds = Inr c \<and>
           compatibilityScore c = Some (100 - 20 * int (length (details c))) \<and>
           (6 \<le> length (details c) \<longrightarrow> (\<exists>n < 0. compatibilityScore c = Some n))"
proof -
  from canCombineGrids_resolved [OF assms]
  obtain first others where c: "canCombineGrids gs gridIds = Inr (checkSelected first others)"
    by blast
  let ?c = "checkSelected first others"
  have score: "compatibilityScore ?c = Some (100 - 20 * int (length (details ?c)))"
    by (rule checkSelected_score)
  have "\<exists>n < 0. compatibilityScore ?c = Some n" if "6 \<le> length (details ?c)"
  proof -
    from that have "100 - 20 * int (length (details ?c)) < 0"
      by linarith
    with score show ?thesis
      by blast
  qed
  with c score show ?thesis
    by blast
qed

text \<open>
  Grid A against four grids that are far away and have more layers and many more points:
  four bounds mismatches, the layer count and the point count make six entries and the
  score -20.
\<close>

theorem C7_score_formula_witness:
  "2 \<le> length [''1'', ''3'', ''4'', ''5'', ''6''] \<and>
   canCombineGrids crowd [''1'', ''3'', ''4'', ''5'', ''6''] =
     Inr \<lparr>canCombine = False, reason = ''Incompatible grids - see details'',
          details = [BoundsMismatch ''Grid_3'', BoundsMismatch ''Grid_4'', BoundsMismatch ''Grid_5'',
                     BoundsMismatch ''Grid_6'', LayerCountVariation 13, PointCountVariance],
          compatibilityScore = Some (- 20)\<rparr>"
proof -
  have len: "2 \<le> length [''1'', ''3'', ''4'', ''5'', ''6'']"
    by simp
  have sel: "those (map (findGrid crowd) [''1'', ''3'', ''4'', ''5'', ''6''])
               = Some crowd"
    by (simp add: crowd_def findGrid_def gridA_def farGrid_def)
  have d: "details (checkSelected gridA [farGrid ''3'', farGrid ''4'', farGrid ''5'', farGrid ''6''])
            = [BoundsMismatch ''Grid_3'', BoundsMismatch ''Grid_4'', BoundsMismatch ''Grid_5'',
                     BoundsMismatch ''Grid_6'', LayerCountVariation 13, PointCountVariance]"
    and rest: "canCombine (checkSelected gridA [farGrid ''3'', farGrid ''4'', farGrid ''5'', farGrid ''6'']) = False"
      "reason (checkSelected gridA [farGrid ''3'', farGrid ''4'', farGrid ''5'', farGrid ''6''])
         = ''Incompatible grids - see details''"
    by (simp_all add: checkSelected_def gridA_def farGrid_def boundsMismatch_def pointVariance_def
        varianceTooHigh_def varianceOk_def Let_def)
  have c: "canCombineGrids crowd [''1'', ''3'', ''4'', ''5'', ''6'']
             = Inr (checkSelected gridA [farGrid ''3'', farGrid ''4'', farGrid ''5'', farGrid ''6''])"
    using sel by (simp add: canCombineGrids_def crowd_def)
  from C7_score_formula [OF len sel]
  have "compatibilityScore (checkSelected gridA [farGrid ''3'', farGrid ''4'', farGrid ''5'', farGrid ''6''])
          = Some (- 20)"
    unfolding c by (simp add: d)
  with d rest have "checkSelected gridA [farGrid ''3'', farGrid ''4'', farGrid ''5'', farGrid ''6''] =
     \<lparr>canCombine = False, reason = ''Incompatible grids - see details'',
          details = [BoundsMismatch ''Grid_3'', BoundsMismatch ''Grid_4'', BoundsMismatch ''Grid_5'',
                     BoundsMismatch ''Grid_6'', LayerCountVariation 13, PointCountVariance],
          compatibilityScore = Some (- 20)\<rparr>"
    by (cases "checkSelected gridA [farGrid ''3'', farGrid ''4'', farGrid ''5'', farGrid ''6'']") simp
  with c len show ?thesis
    by simp
qed

section \<open>Order of the selection, and a grid against its copy\<close>

lemma boundsMismatch_sym:
  assumes "xMax a - xMin a = xMax b - xMin b" "yMax a - yMin a = yMax b - yMin b"
    "zMax a - zMin a = zMax b - zMin b"
  shows "boundsMismatch a b = boundsMismatch b a"
  using assms by (simp add: boundsMismatch_def Let_def abs_minus_commute)

lemma pointVariance_pair: "pointVariance [p, q] = pointVariance [q, p]"
  by (simp add: pointVariance_def Let_def add.commute)

lemma checkSelected_pair_sym:
  assumes "xMax (bounds A) - xMin (bounds A) = xMax (bounds B) - xMin (bounds B)"
    "yMax (bounds A) - yMin (bounds A) = yMax (bounds B) - yMin (bounds B)"
    "zMax (bounds A) - zMin (bounds A) = zMax (bounds B) - zMin (bounds B)"
  shows "canCombine (checkSelected A [B]) = canCombine (checkSelected B [A])"
proof -
  have b: "boundsMismatch (bounds A) (bounds B) = boundsMismatch (bounds B) (bounds A)"
    by (rule boundsMismatch_sym [OF assms])
  have l: "max (layerCount B) (layerCount A) - min (layerCount B) (layerCount A)
           = max (layerCount A) (layerCount B) - min (layerCount A) (layerCount B)"
    by (simp add: max.commute min.commute)
  have v: "pointVariance [pointCount A, pointCount B] = pointVariance [pointCount B, pointCount A]"
    by (rule pointVariance_pair)
  show ?thesis
    by (simp add: checkSelected_def Let_def b l v)
qed

lemma pointVariance_same:
  assumes "0 < p"
  shows "pointVariance [p, p] = Some 0"
  using assms by (simp add: pointVariance_def Let_def)

lemma checkSelected_copy:
  assumes "bounds B = bounds A" "layerCount B = layerCount A" "pointCount B = pointCount A"
    and "0 < pointCount A"
    and "xMin (bounds A) \<le> xMax (bounds A)" "yMin (bounds A) \<le> yMax (bounds A)"
      "zMin (bounds A) \<le> zMax (bounds A)"
  shows "checkSelected A [B] =
           \<lparr>canCombine = True, reason = ''Compatible grids'', details = [],
            compatibilityScore = Some 100\<rparr>"
proof -
  have "\<not> boundsMismatch (bounds A) (bounds A)"
    using assms(5-7) by (simp add: boundsMismatch_def Let_def)
  then show ?thesis
    using assms(1-3) pointVariance_same [OF assms(4)]
    by (simp add: checkSelected_def Let_def varianceOk_def varianceTooHigh_def)
qed

text \<open>
  Claim C3, as amended. The bounds check measures every grid against the extents of the
  first one, so the order of a pair matters in general. For two grids of the state whose
  bounds have the same extent on each axis, \<open>check([A,B]).canCombine\<close> equals
  \<open>check([B,A]).canCombine\<close>. And a grid with at least one point (and bounds whose
  minima do not exceed the maxima) is compatible with a copy of itself that has the same
  bounds, layer count and point count: \<open>canCombine\<close> is true, there is no mismatch
  reason and the score is 100.
\<close>

theorem C3_symmetry_and_copy:
  assumes "findGrid gs ia = Some A" "findGrid gs ib = Some B"
  shows "\<exists>c c'. canCombineGrids gs [ia, ib] = Inr c \<and> canCombineGrids gs [ib, ia] = Inr c' \<and>
           (xMax (bounds A) - xMin (bounds A) = xMax (bounds B) - xMin (bounds B) \<and>
            yMax (bounds A) - yMin (bounds A) = yMax (bounds B) - yMin (bounds B) \<and>
            zMax (bounds A) - zMin (bounds A) = zMax (bounds B) - zMin (bounds B)
              \<longrightarrow> canCombine c = canCombine c') \<and>
           (bounds B = bounds A \<and> layerCount B = layerCount A \<and> pointCount B = pointCount A \<and>
            0 < pointCount A \<and> xMin (bounds A) \<le> xMax (bounds A) \<and>
            yMin (bounds A) \<le> yMax (bounds A) \<and> zMin (bounds A) \<le> zMax (bounds A)
              \<longrightarrow> c = \<lparr>canCombine = True, reason = ''Compatible grids'', details = [],
                       compatibilityScore = Some 100\<rparr>)"
proof -
  have c: "canCombineGrids gs [ia, ib] = Inr (checkSelected A [B])"
    and c': "canCombineGrids gs [ib, ia] = Inr (checkSelected B [A])"
    using assms by (simp_all add: canCombineGrids_def)
  have sym: "canCombine (checkSelected A [B]) = canCombine (checkSelected B [A])"
    if "xMax (bounds A) - xMin (bounds A) = xMax (bounds B) - xMin (bounds B) \<and>
        yMax (bounds A) - yMin (bounds A) = yMax (bounds B) - yMin (bounds B) \<and>
        zMax (bounds A) - zMin (bounds A) = zMax (bounds B) - zMin (bounds B)"
    using that by (intro checkSelected_pair_sym) simp_all
  have copy: "checkSelected A [B] =
                \<lparr>canCombine = True, reason = ''Compatible grids'', details = [],
                 compatibilityScore = Some 100\<rparr>"
    if "bounds B = bounds A \<and> layerCount B = layerCount A \<and> pointCount B = pointCount A \<and>
        0 < pointCount A \<and> xMin (bounds A) \<le> xMax (bounds A) \<and>
        yMin (bounds A) \<le> yMax (bounds A) \<and> zMin (bounds A) \<le> zMax (bounds A)"
    using that by (intro checkSelected_copy) simp_all
  show ?thesis
  proof (intro exI conjI impI)
    show "canCombineGrids gs [ia, ib] = Inr (checkSelected A [B])"
      by (rule c)
    show "canCombineGrids gs [ib, ia] = Inr (checkSelected B [A])"
      by (rule c')
  qed (use sym copy in blast)+
qed

theorem C3_symmetry_and_copy_witness:
  "canCombineGrids [gridA, gridB] [''1'', ''2''] =
     Inr \<lparr>canCombine = True, reason = ''Compatible grids'', details = [],
          compatibilityScore = Some 100\<rparr> \<and>
   canCombineGrids [gridA, gridB] [''2'', ''1''] =
     Inr \<lparr>canCombine = True, reason = ''Compatible grids'', details = [],
          compatibilityScore = Some 100\<rparr> \<and>
   canCombineGrids [gridA, gridA\<lparr>gid := ''9'', gname := ''Grid_1_Copy''\<rparr>] [''1'', ''9''] =
     Inr \<lparr>canCombine = True, reason = ''Compatible grids'', details = [],
          compatibilityScore = Some 100\<rparr>"
proof -
  let ?copy = "gridA\<lparr>gid := ''9'', gname := ''Grid_1_Copy''\<rparr>"
  have f: "findGrid [gridA, gridB] ''1'' = Some gridA" "findGrid [gridA, gridB] ''2'' = Some gridB"
    "findGrid [gridA, ?copy] ''1'' = Some gridA" "findGrid [gridA, ?copy] ''9'' = Some ?copy"
    by (simp_all add: findGrid_def gridA_def gridB_def)
  have ext: "xMax (bounds gridA) - xMin (bounds gridA) = xMax (bounds gridB) - xMin (bounds gridB) \<and>
            yMax (bounds gridA) - yMin (bounds gridA) = yMax (bounds gridB) - yMin (bounds gridB) \<and>
            zMax (bounds gridA) - zMin (bounds gridA) = zMax (bounds gridB) - zMin (bounds gridB)"
    by (simp add: gridA_def gridB_def)
  have cp: "bounds ?copy = bounds gridA \<and> layerCount ?copy = layerCount gridA \<and>
            pointCount ?copy = pointCount gridA \<and> 0 < pointCount gridA \<and>
            xMin (bounds gridA) \<le> xMax (bounds gridA) \<and>
            yMin (bounds gridA) \<le> yMax (bounds gridA) \<and> zMin (bounds gridA) \<le> zMax (bounds gridA)"
    by (simp add: gridA_def)
  from C3_symmetry_and_copy [OF f(1,2)] ext
  obtain c c' where s: "canCombineGrids [gridA, gridB] [''1'', ''2''] = Inr c"
    "canCombineGrids [gridA, gridB] [''2'', ''1''] = Inr c'" "canCombine c = canCombine c'"
    by blast
  have v: "canCombineGrids [gridA, gridB] [''1'', ''2''] =
     Inr \<lparr>canCombine = True, reason = ''Compatible grids'', details = [],
          compatibilityScore = Some 100\<rparr>"
    using pair_compatible [of Vertical] by (simp add: pairState_def initialState_def)
  from s v have "canCombine c'"
    by auto
  moreover have "details c' = []" "compatibilityScore c' = Some 100"
    using s(2) by (auto simp add: canCombineGrids_def findGrid_def gridA_def gridB_def
        checkSelected_def boundsMismatch_def pointVariance_def varianceTooHigh_def Let_def)
  moreover have "reason c' = ''Compatible grids''"
    using s(2) \<open>canCombine c'\<close> by (auto simp add: canCombineGrids_def findGrid_def gridA_def gridB_def
        checkSelected_def Let_def)
  ultimately have "c' = \<lparr>canCombine = True, reason = ''Compatible grids'', details = [],
          compatibilityScore = Some 100\<rparr>"
    by (cases c') simp
  moreover from C3_symmetry_and_copy [OF f(3,4)] cp
  have "canCombineGrids [gridA, ?copy] [''1'', ''9''] =
     Inr \<lparr>canCombine = True, reason = ''Compatible grids'', details = [],
          compatibilityScore = Some 100\<rparr>"
    by blast
  ultimately show ?thesis
    using v s(2) by simp
qed

text \<open>
  Two grids that differ in \<open>xMax\<close> only, 100 against 111. With the narrow one first the
  tolerance is 10 and the difference 11 is a mismatch; with the wide one first the
  tolerance is 11.1 and the same difference passes.
\<close>

theorem C3_counterexample:
  "canCombineGrids [narrowGrid, wideGrid] [''n'', ''w''] =
     Inr \<lparr>canCombine = False, reason = ''Incompatible grids - see details'',
          details = [BoundsMismatch ''Wide''], compatibilityScore = Some 80\<rparr> \<and>
   canCombineGrids [narrowGrid, wideGrid] [''w'', ''n''] =
     Inr \<lparr>canCombine = True, reason = ''Compatible grids'', details = [],
          compatibilityScore = Some 100\<rparr>"
  by (simp add: canCombineGrids_def findGrid_def narrowGrid_def wideGrid_def checkSelected_def
      boundsMismatch_def pointVariance_def varianceTooHigh_def varianceOk_def Let_def)

text \<open>
  A grid without cells against its copy: the mean point count is 0, the point-count
  statistic is \<open>0 / 0\<close>, and the result is not combinable although no reason is listed
  and the score is 100.
\<close>

lemma copy_without_cells:
  "canCombineGrids [gridA\<lparr>points := [], pointCount := 0\<rparr>,
                    gridA\<lparr>gid := ''9'', points := [], pointCount := 0\<rparr>] [''1'', ''9''] =
     Inr \<lparr>canCombine = False, reason = ''Incompatible grids - see details'', details = [],
          compatibilityScore = Some 100\<rparr>"
  by (simp add: canCombineGrids_def findGrid_def gridA_def checkSelected_def
      boundsMismatch_def pointVariance_def varianceTooHigh_def varianceOk_def Let_def)

section \<open>Compatible grids hold a cell\<close>

text \<open>
  Every grid the tool makes has as many cells as its \<open>pointCount\<close> says. For such grids
  a compatible selection holds a cell: the point-count check fails when all counts are 0.
\<close>

lemma fold_plus_sum_list_nat: "fold (\<lambda>b a. a + b) xs (n::nat) = n + sum_list xs"
  by (induction xs arbitrary: n) simp_all

lemma pointVariance_None: "pointVariance ps = None \<longleftrightarrow> ps = [] \<or> sum_list ps = 0"
  by (auto simp add: pointVariance_def Let_def fold_plus_sum_list_nat)

lemma compatible_has_cell:
  assumes sel: "those (map (findGrid (grids s)) (selectedGrids s)) = Some gs"
    and ok: "canCombineGrids (grids s) (selectedGrids s) = Inr c" "canCombine c"
    and counts: "\<forall>g \<in> set gs. pointCount g = length (points g)"
  shows "\<exists>g \<in> set gs. points g \<noteq> []"
proof -
  have len: "2 \<le> length (selectedGrids s)"
    using ok by (auto simp add: canCombineGrids_def split: if_splits)
  from canCombineGrids_resolved [OF len sel] ok(1)
  obtain first others where gs: "gs = first # others" and c: "c = checkSelected first others"
    by auto
  from ok(2) have "varianceOk (pointVariance (map pointCount gs))"
    unfolding c gs by (simp add: checkSelected_def Let_def)
  then have "pointVariance (map pointCount gs) \<noteq> None"
    by (auto simp add: varianceOk_def split: option.splits)
  then have "sum_list (map pointCount gs) \<noteq> 0"
    by (simp add: pointVariance_None)
  then obtain g where "g \<in> set gs" "pointCount g \<noteq> 0"
    by (auto simp add: sum_list_eq_0_iff)
  with counts show ?thesis
    by auto
qed


end
